theory Spec2Isabelle
  imports Main "HOL-Library.AList"
begin

section \<open>Records of the wallet transaction database (lib/wallet/txdb.js)\<close>

text \<open>
  Hashes are the hex strings the code passes around (\<^verbatim>\<open>tx.hash('hex')\<close>). Scripts are
  kept abstract: the code only hands them to the wallet's path resolver.
\<close>

type_synonym hash = string
type_synonym script = nat

definition NULL_HASH :: hash where
  "NULL_HASH = replicate 64 (CHR ''0'')"

datatype outpoint = Outpoint (op_hash: hash) (op_index: nat)

record input =
  prevout :: outpoint
  in_script :: script

record txoutput =
  out_value :: int
  out_script :: script

text \<open>
  \<^verbatim>\<open>BlockMeta\<close>, the second argument of \<^verbatim>\<open>add\<close> and \<^verbatim>\<open>confirm\<close>; \<^verbatim>\<open>confirm\<close> reads its
  fields \<^verbatim>\<open>height\<close>, \<^verbatim>\<open>block\<close> and \<^verbatim>\<open>ts\<close>.
\<close>

record blockmeta =
  bm_block :: "hash option"
  bm_height :: int
  bm_ts :: nat

text \<open>
  A transaction with its wallet-local metadata. \<^verbatim>\<open>tx.hash('hex')\<close>, \<^verbatim>\<open>tx.isCoinbase()\<close> and
  \<^verbatim>\<open>tx.isRBF()\<close> are methods of primitives/tx.js, which this development does not
  contain; they depend on the immutable inputs and outputs only and are carried as the
  fields \<open>txid\<close>, \<open>tx_isCoinbase\<close> and \<open>tx_isRBF\<close>.
\<close>

record tx =
  txid :: hash
  inputs :: "input list"
  outputs :: "txoutput list"
  height :: int
  block :: "hash option"
  ts :: nat
  index :: int
  ps :: nat
  mutable :: bool
  tx_isCoinbase :: bool
  tx_isRBF :: bool

text \<open>
  The extended serialization keeps the transaction and \<^verbatim>\<open>ps\<close>, \<^verbatim>\<open>height\<close>, \<^verbatim>\<open>block\<close>,
  \<^verbatim>\<open>ts\<close>, \<^verbatim>\<open>index\<close>; the in-memory \<^verbatim>\<open>mutable\<close> flag is not part of it, and
  \<^verbatim>\<open>TX.fromExtended\<close> builds an immutable transaction.
\<close>

definition toExtended :: "tx \<Rightarrow> tx" where
  "toExtended t = t\<lparr>mutable := False\<rparr>"

text \<open>A coin as held in memory, and the bytes \<^verbatim>\<open>coin.toRaw()\<close> keeps (no outpoint).\<close>

record coin =
  coin_value :: int
  coin_height :: int
  coin_coinbase :: bool
  coin_script :: script
  coin_hash :: hash
  coin_index :: nat

record rawcoin =
  raw_value :: int
  raw_height :: int
  raw_coinbase :: bool
  raw_script :: script

definition Coin_toRaw :: "coin \<Rightarrow> rawcoin" where
  "Coin_toRaw c = \<lparr>raw_value = coin_value c, raw_height = coin_height c,
                   raw_coinbase = coin_coinbase c, raw_script = coin_script c\<rparr>"

text \<open>\<^verbatim>\<open>Coin.fromRaw(data)\<close> followed by the assignment of \<^verbatim>\<open>coin.hash\<close> and \<^verbatim>\<open>coin.index\<close>
  that every caller in txdb.js performs.\<close>

definition Coin_fromRaw :: "rawcoin \<Rightarrow> hash \<Rightarrow> nat \<Rightarrow> coin" where
  "Coin_fromRaw r h i = \<lparr>coin_value = raw_value r, coin_height = raw_height r,
                         coin_coinbase = raw_coinbase r, coin_script = raw_script r,
                         coin_hash = h, coin_index = i\<rparr>"

text \<open>
  Modelled from the spec: \<^verbatim>\<open>Coin.fromTX(tx, index)\<close> (primitives/coin.js is missing): the
  output \<open>index\<close> of \<open>tx\<close> materialized as a coin, with the height of \<open>tx\<close>, its coinbase
  flag and its outpoint. Reading an output that does not exist is a \<^verbatim>\<open>TypeError\<close> in the
  code; callers below only pass indices of existing outputs.
\<close>

definition Coin_fromTX :: "tx \<Rightarrow> nat \<Rightarrow> txoutput \<Rightarrow> coin" where
  "Coin_fromTX t i out = \<lparr>coin_value = out_value out, coin_height = height t,
                          coin_coinbase = tx_isCoinbase t, coin_script = out_script out,
                          coin_hash = txid t, coin_index = i\<rparr>"

record credit =
  coin :: coin
  spent :: bool

definition Credit_fromTX :: "tx \<Rightarrow> nat \<Rightarrow> txoutput \<Rightarrow> credit" where
  "Credit_fromTX t i out = \<lparr>coin = Coin_fromTX t i out, spent = False\<rparr>"

text \<open>Modelled from the spec: \<^verbatim>\<open>Outpoint.fromTX(tx, index)\<close> is the hash of \<open>tx\<close> and \<open>index\<close>.\<close>

definition Outpoint_fromTX :: "tx \<Rightarrow> nat \<Rightarrow> outpoint" where
  "Outpoint_fromTX t i = Outpoint (txid t) i"

record txdbstate =
  st_tx :: int
  st_coin :: int
  unconfirmed :: int
  confirmed :: int
  committed :: bool

definition new_TXDBState :: txdbstate where
  "new_TXDBState = \<lparr>st_tx = 0, st_coin = 0, unconfirmed = 0, confirmed = 0, committed = False\<rparr>"

definition clone :: "txdbstate \<Rightarrow> txdbstate" where
  "clone st = \<lparr>st_tx = st_tx st, st_coin = st_coin st, unconfirmed = unconfirmed st,
               confirmed = confirmed st, committed = False\<rparr>"

record blockrecord =
  br_hash :: hash
  br_height :: int
  br_ts :: nat
  hashes :: "hash list"

subsection \<open>Keys and values of the store\<close>

text \<open>
  The keys of \<^verbatim>\<open>layout\<close>, one constructor per prefix character, with the numbers
  and hashes each key is built from. The wallet-id prefix that \<^verbatim>\<open>TXDB.prototype.prefix\<close>
  puts in front is the same for every key of one wallet and is left out.
\<close>

datatype key =
    Kt hash | Kc hash nat | Kd hash nat | Ks hash nat | Kp hash
  | Km nat hash | Kh int hash | KT nat hash | KP nat hash
  | KM nat nat hash | KH nat int hash | KC nat hash nat
  | Kr hash | Kb int | KR

text \<open>What the code serializes under those keys.\<close>

datatype val =
    VTX tx
  | VCredit rawcoin bool
  | VCoin rawcoin
  | VOutpoint outpoint
  | VState int int int int
  | VBlock blockrecord
  | DUMMY

definition Credit_toRaw :: "credit \<Rightarrow> val" where
  "Credit_toRaw cr = VCredit (Coin_toRaw (coin cr)) (spent cr)"

definition TXDBState_toRaw :: "txdbstate \<Rightarrow> val" where
  "TXDBState_toRaw st = VState (st_tx st) (st_coin st) (unconfirmed st) (confirmed st)"

datatype batchop = Put key val | Del key

type_synonym kvstore = "(key \<times> val) list"

fun applyOp :: "kvstore \<Rightarrow> batchop \<Rightarrow> kvstore" where
  "applyOp kv (Put k v) = AList.update k v kv"
| "applyOp kv (Del k) = AList.delete k kv"

definition writeBatch :: "batchop list \<Rightarrow> kvstore \<Rightarrow> kvstore" where
  "writeBatch ops kv = foldl applyOp kv ops"


subsection \<open>Details, events, coin cache, orphans\<close>

text \<open>
  Of \<^verbatim>\<open>Details\<close> the write pipeline reads back only \<^verbatim>\<open>details.accounts\<close>; the members
  built for the listeners are left out. \<^verbatim>\<open>utils.binaryInsert(accounts, account, cmp, true)\<close>
  keeps the list sorted and without duplicates.
\<close>

record details =
  d_tx :: tx
  accounts :: "nat list"

definition new_Details :: "tx \<Rightarrow> details" where
  "new_Details t = \<lparr>d_tx = t, accounts = []\<rparr>"

definition binaryInsert :: "nat list \<Rightarrow> nat \<Rightarrow> nat list" where
  "binaryInsert xs a = (if a \<in> set xs then xs else insort a xs)"

definition setMember :: "details \<Rightarrow> nat \<Rightarrow> details" where
  "setMember d account = d\<lparr>accounts := binaryInsert (accounts d) account\<rparr>"

datatype evdata = EvTX tx | EvBalance int int

type_synonym event = "string \<times> evdata \<times> details"

definition toBalance :: "txdbstate \<Rightarrow> evdata" where
  "toBalance st = EvBalance (unconfirmed st) (confirmed st)"

text \<open>
  Modelled from the spec: the coin cache (utils/lru.js is missing). A map from outpoint
  to raw credit bytes with a list of pending operations: \<^verbatim>\<open>start\<close> opens the list,
  \<^verbatim>\<open>push\<close> and \<^verbatim>\<open>unpush\<close> append to it, \<^verbatim>\<open>commit\<close> publishes it, \<^verbatim>\<open>drop\<close> discards it,
  \<^verbatim>\<open>clear\<close> empties it; \<^verbatim>\<open>get\<close> and \<^verbatim>\<open>set\<close> work on the published map. Eviction at the
  capacity of 10000 entries is not modelled.
\<close>

datatype lruop = LSet "hash \<times> nat" "rawcoin \<times> bool" | LRemove "hash \<times> nat"

record lru =
  lru_items :: "hash \<times> nat \<Rightarrow> (rawcoin \<times> bool) option"
  lru_pending :: "lruop list option"

definition lru_start :: "lru \<Rightarrow> lru" where
  "lru_start c = c\<lparr>lru_pending := Some []\<rparr>"

definition lru_drop :: "lru \<Rightarrow> lru" where
  "lru_drop c = c\<lparr>lru_pending := None\<rparr>"

definition lru_clear :: "lru \<Rightarrow> lru" where
  "lru_clear c = c\<lparr>lru_pending := Some []\<rparr>"

fun lru_apply :: "(hash \<times> nat \<Rightarrow> (rawcoin \<times> bool) option) \<Rightarrow> lruop
    \<Rightarrow> (hash \<times> nat \<Rightarrow> (rawcoin \<times> bool) option)" where
  "lru_apply m (LSet k v) = m(k \<mapsto> v)"
| "lru_apply m (LRemove k) = m(k := None)"

definition lru_commit :: "lru \<Rightarrow> lru" where
  "lru_commit c = \<lparr>lru_items = foldl lru_apply (lru_items c) (case lru_pending c of None \<Rightarrow> [] | Some ops \<Rightarrow> ops),
                   lru_pending = None\<rparr>"

definition lru_push :: "hash \<times> nat \<Rightarrow> rawcoin \<times> bool \<Rightarrow> lru \<Rightarrow> lru" where
  "lru_push k v c = c\<lparr>lru_pending := map_option (\<lambda>ops. ops @ [LSet k v]) (lru_pending c)\<rparr>"

definition lru_unpush :: "hash \<times> nat \<Rightarrow> lru \<Rightarrow> lru" where
  "lru_unpush k c = c\<lparr>lru_pending := map_option (\<lambda>ops. ops @ [LRemove k]) (lru_pending c)\<rparr>"

definition lru_set :: "hash \<times> nat \<Rightarrow> rawcoin \<times> bool \<Rightarrow> lru \<Rightarrow> lru" where
  "lru_set k v c = c\<lparr>lru_items := (lru_items c)(k \<mapsto> v)\<rparr>"

record orphan =
  o_tx :: tx
  o_hash :: hash
  o_index :: nat
  o_block :: "blockmeta option"

definition Orphan :: "tx \<Rightarrow> nat \<Rightarrow> blockmeta option \<Rightarrow> orphan" where
  "Orphan t i b = \<lparr>o_tx = t, o_hash = txid t, o_index = i, o_block = b\<rparr>"

subsection \<open>The TXDB object and its environment\<close>

text \<open>
  \<open>store\<close> is the committed key-value store (\<^verbatim>\<open>this.db\<close>), \<open>current\<close> the wallet's open
  batch (\<^verbatim>\<open>this.wallet.current\<close>), the other fields are the fields of the constructor.
  Reads go to \<open>store\<close>: a staged operation is not visible before the batch is written.
\<close>

record txdb =
  store :: kvstore
  current :: "batchop list option"
  state :: txdbstate
  pending :: "txdbstate option"
  events :: "event list"
  coinCache :: lru
  locked :: "(hash \<times> nat) set"
  orphans :: "hash \<times> nat \<Rightarrow> orphan list option"
  count :: "hash \<Rightarrow> int option"
  totalOrphans :: int

text \<open>
  What TXDB consumes from its collaborators: the wallet's path resolver, composed with
  \<^verbatim>\<open>getAddress()\<close> (the account of the path, or no match), the options, and script
  verification of one input against a coin.
\<close>

record env =
  wallet_getPath :: "script \<Rightarrow> nat option"
  wallet_hasPath :: "script \<Rightarrow> bool"
  options_resolution :: bool
  options_verify :: bool
  verifyInputAsync :: "tx \<Rightarrow> nat \<Rightarrow> coin \<Rightarrow> bool"

datatype error = AssertionError string | Error string | TypeError string

datatype 'a outcome = Returned 'a | Threw error

type_synonym 'a action = "txdb \<Rightarrow> 'a outcome \<times> txdb"

definition ret :: "'a \<Rightarrow> 'a action" where
  "ret x s = (Returned x, s)"

definition throw :: "error \<Rightarrow> 'a action" where
  "throw e s = (Threw e, s)"

definition andThen :: "'a action \<Rightarrow> ('a \<Rightarrow> 'b action) \<Rightarrow> 'b action" where
  "andThen m f s = (case m s of (Returned x, s') \<Rightarrow> f x s' | (Threw e, s') \<Rightarrow> (Threw e, s'))"

definition assert :: "bool \<Rightarrow> string \<Rightarrow> unit action" where
  "assert b msg = (if b then ret () else throw (AssertionError msg))"

subsection \<open>Batch protocol\<close>

definition start :: "txdb \<Rightarrow> txdb" where
  "start s = s\<lparr>pending := Some (clone (state s)),
              coinCache := lru_start (coinCache s),
              current := Some []\<rparr>"

definition drop_batch :: "txdb \<Rightarrow> txdb" where
  "drop_batch s = s\<lparr>pending := None, events := [],
                   coinCache := lru_drop (coinCache s),
                   current := None\<rparr>"

definition clear :: "txdb \<Rightarrow> txdb" where
  "clear s = s\<lparr>pending := Some (clone (state s)), events := [],
              coinCache := lru_clear (coinCache s),
              current := map_option (\<lambda>_. []) (current s)\<rparr>"

text \<open>
  \<^verbatim>\<open>commit\<close>: the wallet writes the batch (the store is taken to be reliable, so the
  \<^verbatim>\<open>catch\<close> branch for a failed write is not reached); the pending state replaces the
  state only if something committed it. The buffered events are handed to the listeners
  and the buffer is emptied.
\<close>

definition commit :: "unit action" where
  "commit s =
     (let s1 = s\<lparr>store := writeBatch (case current s of None \<Rightarrow> [] | Some ops \<Rightarrow> ops) (store s),
                 current := None\<rparr>
      in case pending s1 of
           None \<Rightarrow> (Threw (TypeError ''pending is null''), s1)
         | Some p \<Rightarrow>
             (Returned (),
              (if committed p then s1\<lparr>state := p\<rparr> else s1)
                \<lparr>pending := None, events := [], coinCache := lru_commit (coinCache s1)\<rparr>))"

definition emit :: "string \<Rightarrow> evdata \<Rightarrow> details \<Rightarrow> unit action" where
  "emit ev data d s = (Returned (), s\<lparr>events := events s @ [(ev, data, d)]\<rparr>)"

definition put :: "key \<Rightarrow> val \<Rightarrow> unit action" where
  "put k v s = (case current s of
                  None \<Rightarrow> (Threw (AssertionError ''wallet.current''), s)
                | Some ops \<Rightarrow> (Returned (), s\<lparr>current := Some (ops @ [Put k v])\<rparr>))"

definition del :: "key \<Rightarrow> unit action" where
  "del k s = (case current s of
                None \<Rightarrow> (Threw (AssertionError ''wallet.current''), s)
              | Some ops \<Rightarrow> (Returned (), s\<lparr>current := Some (ops @ [Del k])\<rparr>))"

definition get :: "key \<Rightarrow> txdb \<Rightarrow> val option" where
  "get k s = map_of (store s) k"

definition has :: "key \<Rightarrow> txdb \<Rightarrow> bool" where
  "has k s = (map_of (store s) k \<noteq> None)"

definition getPath :: "env \<Rightarrow> script \<Rightarrow> nat option" where
  "getPath e sc = wallet_getPath e sc"

definition hasPath :: "env \<Rightarrow> script \<Rightarrow> bool" where
  "hasPath e sc = wallet_hasPath e sc"

text \<open>Updates of \<^verbatim>\<open>this.pending\<close>; the batch must have been started.\<close>

definition modPending :: "(txdbstate \<Rightarrow> txdbstate) \<Rightarrow> unit action" where
  "modPending f s = (case pending s of
                       None \<Rightarrow> (Threw (TypeError ''pending is null''), s)
                     | Some p \<Rightarrow> (Returned (), s\<lparr>pending := Some (f p)\<rparr>))"


subsection \<open>Reads\<close>

text \<open>
  A read decodes the bytes found under a key. The schema stores under each prefix only
  values of that prefix's record type; bytes of any other shape are read as absent.
\<close>

definition getTX :: "hash \<Rightarrow> txdb \<Rightarrow> tx option" where
  "getTX h s = (case get (Kt h) s of Some (VTX t) \<Rightarrow> Some t | _ \<Rightarrow> None)"

definition hasTX :: "hash \<Rightarrow> txdb \<Rightarrow> bool" where
  "hasTX h s = has (Kt h) s"

definition getSpent :: "hash \<Rightarrow> nat \<Rightarrow> txdb \<Rightarrow> outpoint option" where
  "getSpent h i s = (case get (Ks h i) s of Some (VOutpoint sp) \<Rightarrow> Some sp | _ \<Rightarrow> None)"

definition isSpent :: "hash \<Rightarrow> nat \<Rightarrow> txdb \<Rightarrow> bool" where
  "isSpent h i s = has (Ks h i) s"

definition getSpentCoin :: "outpoint \<Rightarrow> outpoint \<Rightarrow> txdb \<Rightarrow> coin option" where
  "getSpentCoin sp prev s =
     (case get (Kd (op_hash sp) (op_index sp)) s of
        Some (VCoin raw) \<Rightarrow> Some (Coin_fromRaw raw (op_hash prev) (op_index prev))
      | _ \<Rightarrow> None)"

definition hasSpentCoin :: "outpoint \<Rightarrow> txdb \<Rightarrow> bool" where
  "hasSpentCoin sp s = has (Kd (op_hash sp) (op_index sp)) s"

definition getBlock :: "int \<Rightarrow> txdb \<Rightarrow> blockrecord option" where
  "getBlock h s = (case get (Kb h) s of Some (VBlock b) \<Rightarrow> Some b | _ \<Rightarrow> None)"

definition getState :: "txdb \<Rightarrow> txdbstate option" where
  "getState s = (case get KR s of
                   Some (VState a b c d) \<Rightarrow>
                     Some \<lparr>st_tx = a, st_coin = b, unconfirmed = c, confirmed = d, committed = False\<rparr>
                 | _ \<Rightarrow> None)"

definition Credit_fromRaw :: "rawcoin \<times> bool \<Rightarrow> hash \<Rightarrow> nat \<Rightarrow> credit" where
  "Credit_fromRaw data h i = \<lparr>coin = Coin_fromRaw (fst data) h i, spent = snd data\<rparr>"

text \<open>\<^verbatim>\<open>getCredit\<close> reads through the coin cache and fills it on a miss.\<close>

definition getCredit :: "hash \<Rightarrow> nat \<Rightarrow> credit option action" where
  "getCredit h i s =
     (case lru_items (coinCache s) (h, i) of
        Some data \<Rightarrow> (Returned (Some (Credit_fromRaw data h i)), s)
      | None \<Rightarrow>
          (case get (Kc h i) s of
             Some (VCredit raw sp) \<Rightarrow>
               (Returned (Some (Credit_fromRaw (raw, sp) h i)),
                s\<lparr>coinCache := lru_set (h, i) (raw, sp) (coinCache s)\<rparr>)
           | _ \<Rightarrow> (Returned None, s)))"

definition getCoin :: "hash \<Rightarrow> nat \<Rightarrow> coin option action" where
  "getCoin h i = andThen (getCredit h i) (\<lambda>cr. ret (map_option coin cr))"

text \<open>
  \<^verbatim>\<open>getSpentCredits\<close>: one slot per input, filled by a range scan over the undo coins
  \<^verbatim>\<open>d[hash][*]\<close>; the callback asserts that the index found in a key names an input.
\<close>

fun scanSpent :: "tx \<Rightarrow> kvstore \<Rightarrow> credit option list \<Rightarrow> credit option list outcome" where
  "scanSpent t [] credits = Returned credits"
| "scanSpent t ((Kd h i, VCoin raw) # rest) credits =
     (if h = txid t then
        (if i < length (inputs t) then
           scanSpent t rest
             (credits[i := Some \<lparr>coin = Coin_fromRaw raw (op_hash (prevout (inputs t ! i)))
                                                       (op_index (prevout (inputs t ! i))),
                                 spent = False\<rparr>])
         else Threw (AssertionError ''input''))
      else scanSpent t rest credits)"
| "scanSpent t (kv # rest) credits = scanSpent t rest credits"

definition getSpentCredits :: "tx \<Rightarrow> txdb \<Rightarrow> credit option list outcome" where
  "getSpentCredits t s =
     (if tx_isCoinbase t then Returned (replicate (length (inputs t)) None)
      else scanSpent t (store s) (replicate (length (inputs t)) None))"

text \<open>\<^verbatim>\<open>isRBF\<close>: the transaction signals replacement, or one of its inputs spends an output
  of a transaction tagged under \<^verbatim>\<open>r\<close>.\<close>

fun isRBF_inputs :: "input list \<Rightarrow> txdb \<Rightarrow> bool" where
  "isRBF_inputs [] s = False"
| "isRBF_inputs (inp # rest) s =
     (if has (Kr (op_hash (prevout inp))) s then True else isRBF_inputs rest s)"

definition isRBF :: "tx \<Rightarrow> txdb \<Rightarrow> bool" where
  "isRBF t s = (if tx_isRBF t then True else isRBF_inputs (inputs t) s)"

subsection \<open>Staged writes\<close>

text \<open>
  \<^verbatim>\<open>addOutpointMap\<close>, \<^verbatim>\<open>removeOutpointMap\<close>, \<^verbatim>\<open>addBlockMap\<close> and \<^verbatim>\<open>removeBlockMap\<close> maintain
  the wallet directory shared by all wallets (walletdb.js and records.js, not part of
  this development). Its keys lie outside the key space of \<^verbatim>\<open>layout\<close>; the calls are
  left out.
\<close>

definition saveCredit :: "credit \<Rightarrow> nat \<Rightarrow> unit action" where
  "saveCredit cr account =
     andThen (put (Kc (coin_hash (coin cr)) (coin_index (coin cr))) (Credit_toRaw cr)) (\<lambda>_.
     andThen (put (KC account (coin_hash (coin cr)) (coin_index (coin cr))) DUMMY) (\<lambda>_.
     (\<lambda>s. (Returned (),
            s\<lparr>coinCache := lru_push (coin_hash (coin cr), coin_index (coin cr))
                                     (Coin_toRaw (coin cr), spent cr) (coinCache s)\<rparr>))))"

definition removeCredit :: "credit \<Rightarrow> nat \<Rightarrow> unit action" where
  "removeCredit cr account =
     andThen (del (Kc (coin_hash (coin cr)) (coin_index (coin cr)))) (\<lambda>_.
     andThen (del (KC account (coin_hash (coin cr)) (coin_index (coin cr)))) (\<lambda>_.
     (\<lambda>s. (Returned (),
            s\<lparr>coinCache := lru_unpush (coin_hash (coin cr), coin_index (coin cr)) (coinCache s)\<rparr>))))"

text \<open>\<^verbatim>\<open>tx.inputs[index].prevout\<close> is a \<^verbatim>\<open>TypeError\<close> when the input does not exist.\<close>

definition inputAt :: "tx \<Rightarrow> nat \<Rightarrow> input action" where
  "inputAt t i = (if i < length (inputs t) then ret (inputs t ! i)
                  else throw (TypeError ''tx.inputs[index] is undefined''))"

definition spendCredit :: "credit \<Rightarrow> tx \<Rightarrow> nat \<Rightarrow> unit action" where
  "spendCredit cr t i =
     andThen (inputAt t i) (\<lambda>inp.
       let prev = prevout inp; spender = Outpoint_fromTX t i in
       andThen (put (Ks (op_hash prev) (op_index prev)) (VOutpoint spender)) (\<lambda>_.
       put (Kd (op_hash spender) (op_index spender)) (VCoin (Coin_toRaw (coin cr)))))"

definition unspendCredit :: "tx \<Rightarrow> nat \<Rightarrow> unit action" where
  "unspendCredit t i =
     andThen (inputAt t i) (\<lambda>inp.
       let prev = prevout inp; spender = Outpoint_fromTX t i in
       andThen (del (Ks (op_hash prev) (op_index prev))) (\<lambda>_.
       del (Kd (op_hash spender) (op_index spender))))"

definition writeInput :: "tx \<Rightarrow> nat \<Rightarrow> unit action" where
  "writeInput t i =
     andThen (inputAt t i) (\<lambda>inp.
       let prev = prevout inp; spender = Outpoint_fromTX t i in
       put (Ks (op_hash prev) (op_index prev)) (VOutpoint spender))"

definition removeInput :: "tx \<Rightarrow> nat \<Rightarrow> unit action" where
  "removeInput t i =
     andThen (inputAt t i) (\<lambda>inp.
       let prev = prevout inp in del (Ks (op_hash prev) (op_index prev)))"

definition updateSpentCoin :: "tx \<Rightarrow> nat \<Rightarrow> unit action" where
  "updateSpentCoin t i s =
     (let prev = Outpoint_fromTX t i in
      case getSpent (op_hash prev) (op_index prev) s of
        None \<Rightarrow> (Returned (), s)
      | Some sp \<Rightarrow>
          (case getSpentCoin sp prev s of
             None \<Rightarrow> (Returned (), s)
           | Some c \<Rightarrow>
               put (Kd (op_hash sp) (op_index sp))
                   (VCoin (Coin_toRaw (c\<lparr>coin_height := height t\<rparr>))) s))"

definition resolveInput :: "tx \<Rightarrow> nat \<Rightarrow> txoutput \<Rightarrow> nat \<Rightarrow> bool action" where
  "resolveInput t i out account s =
     (case getSpent (txid t) i s of
        None \<Rightarrow> (Returned False, s)
      | Some sp \<Rightarrow>
          if hasSpentCoin sp s then (Returned False, s)
          else
            (case getTX (op_hash sp) s of
               None \<Rightarrow> (Threw (AssertionError ''stx''), s)
             | Some stx \<Rightarrow>
                 (let cr = Credit_fromTX t i out in
                  andThen (spendCredit cr stx (op_index sp)) (\<lambda>_.
                  andThen (if height stx = -1 then
                             andThen (saveCredit (cr\<lparr>spent := True\<rparr>) account) (\<lambda>_.
                               if height t \<noteq> -1 then
                                 modPending (\<lambda>p. p\<lparr>confirmed := confirmed p + coin_value (coin cr)\<rparr>)
                               else ret ())
                           else ret ()) (\<lambda>_.
                  ret True))) s))"

subsection \<open>Block records\<close>

definition new_BlockRecord :: "hash option \<Rightarrow> int \<Rightarrow> nat \<Rightarrow> blockrecord" where
  "new_BlockRecord h hgt t =
     \<lparr>br_hash = (case h of None \<Rightarrow> NULL_HASH | Some x \<Rightarrow> x), br_height = hgt, br_ts = t, hashes = []\<rparr>"

text \<open>\<^verbatim>\<open>BlockRecord.add\<close> and \<^verbatim>\<open>remove\<close>; \<open>None\<close> is the result \<^verbatim>\<open>false\<close> (nothing changed).\<close>

definition BlockRecord_add :: "hash \<Rightarrow> blockrecord \<Rightarrow> blockrecord option" where
  "BlockRecord_add h b =
     (if h \<in> set (hashes b) then None else Some (b\<lparr>hashes := hashes b @ [h]\<rparr>))"

definition BlockRecord_remove :: "hash \<Rightarrow> blockrecord \<Rightarrow> blockrecord option" where
  "BlockRecord_remove h b =
     (if h \<notin> set (hashes b) then None
      else if last (hashes b) = h then Some (b\<lparr>hashes := butlast (hashes b)\<rparr>)
      else Some (b\<lparr>hashes := remove1 h (hashes b)\<rparr>))"

definition addBlock :: "tx \<Rightarrow> unit action" where
  "addBlock t s =
     (let b = (case getBlock (height t) s of
                 None \<Rightarrow> new_BlockRecord (block t) (height t) (ts t)
               | Some b \<Rightarrow> b)
      in case BlockRecord_add (txid t) b of
           None \<Rightarrow> (Returned (), s)
         | Some b' \<Rightarrow> put (Kb (height t)) (VBlock b') s)"

definition removeBlock :: "tx \<Rightarrow> int \<Rightarrow> unit action" where
  "removeBlock t hgt s =
     (case getBlock hgt s of
        None \<Rightarrow> (Returned (), s)
      | Some b \<Rightarrow>
          (case BlockRecord_remove (txid t) b of
             None \<Rightarrow> (Returned (), s)
           | Some b' \<Rightarrow>
               if hashes b' = [] then del (Kb hgt) s
               else put (Kb hgt) (VBlock b') s))"

text \<open>\<^verbatim>\<open>unlockTX\<close> releases the outpoints the transaction spends.\<close>

definition unlockTX :: "tx \<Rightarrow> unit action" where
  "unlockTX t s =
     (if tx_isCoinbase t then (Returned (), s)
      else (Returned (),
            s\<lparr>locked := locked s - set (map (\<lambda>inp. (op_hash (prevout inp), op_index (prevout inp)))
                                           (inputs t))\<rparr>))"


section \<open>The write pipeline\<close>

text \<open>\<^verbatim>\<open>this.put(layout.R, this.pending.commit())\<close>: the pending state is marked committed
  and its serialization is staged under \<^verbatim>\<open>R\<close>.\<close>

definition commitState :: "unit action" where
  "commitState s =
     (case pending s of
        None \<Rightarrow> (Threw (TypeError ''pending is null''), s)
      | Some p \<Rightarrow> put KR (TXDBState_toRaw p) (s\<lparr>pending := Some (p\<lparr>committed := True\<rparr>)\<rparr>))"

definition emitBalance :: "details \<Rightarrow> unit action" where
  "emitBalance d s =
     (case pending s of
        None \<Rightarrow> (Threw (TypeError ''pending is null''), s)
      | Some p \<Rightarrow> emit ''balance'' (toBalance p) d s)"

subsection \<open>insert\<close>

fun insert_inputs :: "env \<Rightarrow> tx \<Rightarrow> nat \<Rightarrow> input list \<Rightarrow> details \<times> bool
    \<Rightarrow> (details \<times> bool) action" where
  "insert_inputs e t i [] acc = ret acc"
| "insert_inputs e t i (inp # rest) acc =
     andThen (getCredit (op_hash (prevout inp)) (op_index (prevout inp))) (\<lambda>found.
       case found of
         None \<Rightarrow>
           andThen (writeInput t i) (\<lambda>_. insert_inputs e t (Suc i) rest acc)
       | Some cr \<Rightarrow>
           (case getPath e (coin_script (coin cr)) of
              None \<Rightarrow> throw (AssertionError ''path'')
            | Some account \<Rightarrow>
                andThen (spendCredit cr t i) (\<lambda>_.
                andThen (modPending (\<lambda>p. p\<lparr>st_coin := st_coin p - 1,
                                            unconfirmed := unconfirmed p - coin_value (coin cr)\<rparr>)) (\<lambda>_.
                andThen (if height t = -1 then saveCredit (cr\<lparr>spent := True\<rparr>) account
                         else andThen (modPending (\<lambda>p. p\<lparr>confirmed := confirmed p - coin_value (coin cr)\<rparr>))
                                (\<lambda>_. removeCredit cr account)) (\<lambda>_.
                insert_inputs e t (Suc i) rest (setMember (fst acc) account, True))))))"

fun insert_outputs :: "env \<Rightarrow> tx \<Rightarrow> nat \<Rightarrow> txoutput list \<Rightarrow> details \<times> bool
    \<Rightarrow> (details \<times> bool) action" where
  "insert_outputs e t i [] acc = ret acc"
| "insert_outputs e t i (out # rest) acc =
     (case getPath e (out_script out) of
        None \<Rightarrow> insert_outputs e t (Suc i) rest acc
      | Some account \<Rightarrow>
          andThen (resolveInput t i out account) (\<lambda>resolved.
            if resolved then insert_outputs e t (Suc i) rest (setMember (fst acc) account, True)
            else
              andThen (modPending (\<lambda>p. p\<lparr>st_coin := st_coin p + 1,
                                          unconfirmed := unconfirmed p + out_value out\<rparr>)) (\<lambda>_.
              andThen (if height t \<noteq> -1
                       then modPending (\<lambda>p. p\<lparr>confirmed := confirmed p + out_value out\<rparr>)
                       else ret ()) (\<lambda>_.
              andThen (saveCredit (Credit_fromTX t i out) account) (\<lambda>_.
              insert_outputs e t (Suc i) rest (setMember (fst acc) account, True))))))"

fun insert_accounts :: "tx \<Rightarrow> nat list \<Rightarrow> unit action" where
  "insert_accounts t [] = ret ()"
| "insert_accounts t (account # rest) =
     andThen (put (KT account (txid t)) DUMMY) (\<lambda>_.
     andThen (put (KM account (ps t) (txid t)) DUMMY) (\<lambda>_.
     andThen (if height t = -1 then put (KP account (txid t)) DUMMY
              else put (KH account (height t) (txid t)) DUMMY) (\<lambda>_.
     insert_accounts t rest)))"

text \<open>\<^verbatim>\<open>insert\<close> returns the details, or nothing when the transaction is not ours.\<close>

definition insert_tx :: "env \<Rightarrow> tx \<Rightarrow> details option action" where
  "insert_tx e t =
     andThen (if \<not> tx_isCoinbase t then insert_inputs e t 0 (inputs t) (new_Details t, False)
              else ret (new_Details t, False)) (\<lambda>acc.
     andThen (insert_outputs e t 0 (outputs t) acc) (\<lambda>acc.
       if \<not> snd acc then (\<lambda>s. (Returned None, clear s))
       else
         andThen (put (Kt (txid t)) (VTX (toExtended t))) (\<lambda>_.
         andThen (put (Km (ps t) (txid t)) DUMMY) (\<lambda>_.
         andThen (if height t = -1 then put (Kp (txid t)) DUMMY
                  else put (Kh (height t) (txid t)) DUMMY) (\<lambda>_.
         andThen (insert_accounts t (accounts (fst acc))) (\<lambda>_.
         andThen (if height t \<noteq> -1 then addBlock t else ret ()) (\<lambda>_.
         andThen (modPending (\<lambda>p. p\<lparr>st_tx := st_tx p + 1\<rparr>)) (\<lambda>_.
         andThen commitState (\<lambda>_.
         andThen (unlockTX t) (\<lambda>_.
         andThen (emit ''tx'' (EvTX t) (fst acc)) (\<lambda>_.
         andThen (emitBalance (fst acc)) (\<lambda>_.
         ret (Some (fst acc))))))))))))))"

subsection \<open>confirm\<close>

fun confirm_inputs :: "env \<Rightarrow> tx \<Rightarrow> nat \<Rightarrow> input list \<Rightarrow> credit option list \<Rightarrow> details
    \<Rightarrow> details action" where
  "confirm_inputs e t i [] credits d = ret d"
| "confirm_inputs e t i (inp # rest) credits d =
     andThen (case credits ! i of
                Some cr \<Rightarrow> ret (Some cr)
              | None \<Rightarrow>
                  andThen (getCredit (op_hash (prevout inp)) (op_index (prevout inp))) (\<lambda>found.
                    case found of
                      None \<Rightarrow> ret None
                    | Some cr \<Rightarrow>
                        andThen (spendCredit cr t i) (\<lambda>_.
                        andThen (modPending (\<lambda>p. p\<lparr>st_coin := st_coin p - 1,
                                                    unconfirmed := unconfirmed p - coin_value (coin cr)\<rparr>)) (\<lambda>_.
                        ret (Some cr))))) (\<lambda>found.
       case found of
         None \<Rightarrow> confirm_inputs e t (Suc i) rest credits d
       | Some cr \<Rightarrow>
           andThen (assert (coin_height (coin cr) \<noteq> -1) ''coin.height !== -1'') (\<lambda>_.
             case getPath e (coin_script (coin cr)) of
               None \<Rightarrow> throw (AssertionError ''path'')
             | Some account \<Rightarrow>
                 andThen (modPending (\<lambda>p. p\<lparr>confirmed := confirmed p - coin_value (coin cr)\<rparr>)) (\<lambda>_.
                 andThen (removeCredit cr account) (\<lambda>_.
                 confirm_inputs e t (Suc i) rest credits (setMember d account)))))"

fun confirm_outputs :: "env \<Rightarrow> tx \<Rightarrow> nat \<Rightarrow> txoutput list \<Rightarrow> details \<Rightarrow> details action" where
  "confirm_outputs e t i [] d = ret d"
| "confirm_outputs e t i (out # rest) d =
     (case getPath e (out_script out) of
        None \<Rightarrow> confirm_outputs e t (Suc i) rest d
      | Some account \<Rightarrow>
          andThen (getCredit (txid t) i) (\<lambda>found.
            case found of
              None \<Rightarrow> throw (AssertionError ''credit'')
            | Some cr \<Rightarrow>
                andThen (if spent cr then updateSpentCoin t i else ret ()) (\<lambda>_.
                andThen (modPending (\<lambda>p. p\<lparr>confirmed := confirmed p + out_value out\<rparr>)) (\<lambda>_.
                andThen (saveCredit (cr\<lparr>coin := (coin cr)\<lparr>coin_height := height t\<rparr>\<rparr>) account) (\<lambda>_.
                confirm_outputs e t (Suc i) rest (setMember d account))))))"

fun confirm_accounts :: "tx \<Rightarrow> nat list \<Rightarrow> unit action" where
  "confirm_accounts t [] = ret ()"
| "confirm_accounts t (account # rest) =
     andThen (del (KP account (txid t))) (\<lambda>_.
     andThen (put (KH account (height t) (txid t)) DUMMY) (\<lambda>_.
     confirm_accounts t rest))"

definition liftOutcome :: "(txdb \<Rightarrow> 'a outcome) \<Rightarrow> 'a action" where
  "liftOutcome f s = (f s, s)"

text \<open>\<^verbatim>\<open>_confirm(tx, block)\<close>: the block fields are already set on \<open>t\<close>.\<close>

definition u_confirm :: "env \<Rightarrow> tx \<Rightarrow> details action" where
  "u_confirm e t =
     andThen (if \<not> tx_isCoinbase t then
                andThen (liftOutcome (getSpentCredits t)) (\<lambda>credits.
                  confirm_inputs e t 0 (inputs t) credits (new_Details t))
              else ret (new_Details t)) (\<lambda>d.
     andThen (confirm_outputs e t 0 (outputs t) d) (\<lambda>d.
     andThen (del (Kr (txid t))) (\<lambda>_.
     andThen (put (Kt (txid t)) (VTX (toExtended t))) (\<lambda>_.
     andThen (del (Kp (txid t))) (\<lambda>_.
     andThen (put (Kh (height t) (txid t)) DUMMY) (\<lambda>_.
     andThen (confirm_accounts t (accounts d)) (\<lambda>_.
     andThen (if height t \<noteq> -1 then addBlock t else ret ()) (\<lambda>_.
     andThen commitState (\<lambda>_.
     andThen (unlockTX t) (\<lambda>_.
     andThen (emit ''confirmed'' (EvTX t) d) (\<lambda>_.
     andThen (emitBalance d) (\<lambda>_.
     ret d))))))))))))"


subsection \<open>erase\<close>

fun erase_inputs :: "env \<Rightarrow> tx \<Rightarrow> nat \<Rightarrow> input list \<Rightarrow> credit option list \<Rightarrow> details
    \<Rightarrow> details action" where
  "erase_inputs e t i [] credits d = ret d"
| "erase_inputs e t i (inp # rest) credits d =
     (case credits ! i of
        None \<Rightarrow> andThen (removeInput t i) (\<lambda>_. erase_inputs e t (Suc i) rest credits d)
      | Some cr \<Rightarrow>
          (case getPath e (coin_script (coin cr)) of
             None \<Rightarrow> throw (AssertionError ''path'')
           | Some account \<Rightarrow>
               andThen (modPending (\<lambda>p. p\<lparr>st_coin := st_coin p + 1,
                                           unconfirmed := unconfirmed p + coin_value (coin cr)\<rparr>)) (\<lambda>_.
               andThen (if height t \<noteq> -1
                        then modPending (\<lambda>p. p\<lparr>confirmed := confirmed p + coin_value (coin cr)\<rparr>)
                        else ret ()) (\<lambda>_.
               andThen (unspendCredit t i) (\<lambda>_.
               andThen (saveCredit cr account) (\<lambda>_.
               erase_inputs e t (Suc i) rest credits (setMember d account)))))))"

fun erase_outputs :: "env \<Rightarrow> tx \<Rightarrow> nat \<Rightarrow> txoutput list \<Rightarrow> details \<Rightarrow> details action" where
  "erase_outputs e t i [] d = ret d"
| "erase_outputs e t i (out # rest) d =
     (case getPath e (out_script out) of
        None \<Rightarrow> erase_outputs e t (Suc i) rest d
      | Some account \<Rightarrow>
          andThen (modPending (\<lambda>p. p\<lparr>st_coin := st_coin p - 1,
                                      unconfirmed := unconfirmed p - out_value out\<rparr>)) (\<lambda>_.
          andThen (if height t \<noteq> -1
                   then modPending (\<lambda>p. p\<lparr>confirmed := confirmed p - out_value out\<rparr>)
                   else ret ()) (\<lambda>_.
          andThen (removeCredit (Credit_fromTX t i out) account) (\<lambda>_.
          erase_outputs e t (Suc i) rest (setMember d account)))))"

fun erase_accounts :: "tx \<Rightarrow> nat list \<Rightarrow> unit action" where
  "erase_accounts t [] = ret ()"
| "erase_accounts t (account # rest) =
     andThen (del (KT account (txid t))) (\<lambda>_.
     andThen (del (KM account (ps t) (txid t))) (\<lambda>_.
     andThen (if height t = -1 then del (KP account (txid t))
              else del (KH account (height t) (txid t))) (\<lambda>_.
     erase_accounts t rest)))"

definition erase :: "env \<Rightarrow> tx \<Rightarrow> details action" where
  "erase e t =
     andThen (if \<not> tx_isCoinbase t then
                andThen (liftOutcome (getSpentCredits t)) (\<lambda>credits.
                  erase_inputs e t 0 (inputs t) credits (new_Details t))
              else ret (new_Details t)) (\<lambda>d.
     andThen (erase_outputs e t 0 (outputs t) d) (\<lambda>d.
     andThen (del (Kr (txid t))) (\<lambda>_.
     andThen (del (Kt (txid t))) (\<lambda>_.
     andThen (del (Km (ps t) (txid t))) (\<lambda>_.
     andThen (if height t = -1 then del (Kp (txid t)) else del (Kh (height t) (txid t))) (\<lambda>_.
     andThen (erase_accounts t (accounts d)) (\<lambda>_.
     andThen (if height t \<noteq> -1 then removeBlock t (height t) else ret ()) (\<lambda>_.
     andThen (modPending (\<lambda>p. p\<lparr>st_tx := st_tx p - 1\<rparr>)) (\<lambda>_.
     andThen commitState (\<lambda>_.
     andThen (emit ''remove tx'' (EvTX t) d) (\<lambda>_.
     andThen (emitBalance d) (\<lambda>_.
     ret d))))))))))))"

subsection \<open>Recursive removal and conflicts\<close>

text \<open>
  \<^verbatim>\<open>removeRecursive\<close> follows the spent markers of the outputs through the store, which
  the type of the store does not bound; the first argument bounds the depth of the
  recursion, and \<open>None\<close> is the run that needs more. An action of this kind is a
  \<open>deep\<close> action.
\<close>

type_synonym 'a deep = "txdb \<Rightarrow> ('a outcome \<times> txdb) option"

fun removeSpenders :: "(tx \<Rightarrow> details deep) \<Rightarrow> hash \<Rightarrow> nat \<Rightarrow> txoutput list \<Rightarrow> unit deep" where
  "removeSpenders rec h i [] s = Some (Returned (), s)"
| "removeSpenders rec h i (out # rest) s =
     (case getSpent h i s of
        None \<Rightarrow> removeSpenders rec h (Suc i) rest s
      | Some sp \<Rightarrow>
          (case getTX (op_hash sp) s of
             None \<Rightarrow> Some (Threw (AssertionError ''stx''), s)
           | Some stx \<Rightarrow>
               (case rec stx s of
                  None \<Rightarrow> None
                | Some (Threw err, s') \<Rightarrow> Some (Threw err, s')
                | Some (Returned _, s') \<Rightarrow> removeSpenders rec h (Suc i) rest s')))"

text \<open>\<^verbatim>\<open>removeRecursive\<close> has no \<^verbatim>\<open>try\<close>: an error of \<^verbatim>\<open>erase\<close> leaves the batch open.\<close>

fun removeRecursive :: "nat \<Rightarrow> env \<Rightarrow> tx \<Rightarrow> details deep" where
  "removeRecursive 0 e t s = None"
| "removeRecursive (Suc n) e t s =
     (case removeSpenders (\<lambda>stx s'. removeRecursive n e stx s') (txid t) 0 (outputs t) s of
        None \<Rightarrow> None
      | Some (Threw err, s') \<Rightarrow> Some (Threw err, s')
      | Some (Returned _, s') \<Rightarrow>
          Some (andThen (erase e t) (\<lambda>d. andThen commit (\<lambda>_. ret d)) (start s')))"

definition removeConflict :: "nat \<Rightarrow> env \<Rightarrow> tx \<Rightarrow> details deep" where
  "removeConflict n e t s =
     (case removeRecursive n e t (drop_batch s) of
        None \<Rightarrow> None
      | Some (Threw err, s') \<Rightarrow> Some (Threw err, s')
      | Some (Returned d, s') \<Rightarrow>
          Some (andThen (emit ''conflict'' (EvTX t) d) (\<lambda>_. ret d) (start s')))"

text \<open>
  First loop of \<^verbatim>\<open>removeConflicts\<close>: \<^verbatim>\<open>spends[i]\<close> for every input, or \<open>None\<close> for the early
  \<^verbatim>\<open>return false\<close>.
\<close>

fun gatherSpends :: "tx \<Rightarrow> bool \<Rightarrow> input list \<Rightarrow> tx option list \<Rightarrow> txdb
    \<Rightarrow> tx option list option outcome" where
  "gatherSpends t conf [] spends s = Returned (Some spends)"
| "gatherSpends t conf (inp # rest) spends s =
     (case getSpent (op_hash (prevout inp)) (op_index (prevout inp)) s of
        None \<Rightarrow> gatherSpends t conf rest (spends @ [None]) s
      | Some sp \<Rightarrow>
          if op_hash sp = txid t then gatherSpends t conf rest (spends @ [None]) s
          else
            (case getTX (op_hash sp) s of
               None \<Rightarrow> Threw (AssertionError ''spender'')
             | Some spender \<Rightarrow>
                 if conf \<and> height spender \<noteq> -1 then Returned None
                 else gatherSpends t conf rest (spends @ [Some spender]) s))"

fun removeSpends :: "nat \<Rightarrow> env \<Rightarrow> tx option list \<Rightarrow> unit deep" where
  "removeSpends n e [] s = Some (Returned (), s)"
| "removeSpends n e (None # rest) s = removeSpends n e rest s"
| "removeSpends n e (Some spender # rest) s =
     (case removeConflict n e spender s of
        None \<Rightarrow> None
      | Some (Threw err, s') \<Rightarrow> Some (Threw err, s')
      | Some (Returned _, s') \<Rightarrow> removeSpends n e rest s')"

definition removeConflicts :: "nat \<Rightarrow> env \<Rightarrow> tx \<Rightarrow> bool \<Rightarrow> bool deep" where
  "removeConflicts n e t conf s =
     (if tx_isCoinbase t then Some (Returned True, s)
      else
        (case gatherSpends t conf (inputs t) [] s of
           Threw err \<Rightarrow> Some (Threw err, s)
         | Returned None \<Rightarrow> Some (Returned False, s)
         | Returned (Some spends) \<Rightarrow>
             (case removeSpends n e spends s of
                None \<Rightarrow> None
              | Some (Threw err, s') \<Rightarrow> Some (Threw err, s')
              | Some (Returned _, s') \<Rightarrow> Some (Returned True, s'))))"

subsection \<open>add\<close>

text \<open>\<^verbatim>\<open>_add(tx, block)\<close>; the result is the details, or nothing (\<^verbatim>\<open>undefined\<close>).\<close>

definition u_add :: "nat \<Rightarrow> env \<Rightarrow> tx \<Rightarrow> details option deep" where
  "u_add n e t s =
     (let existing = getTX (txid t) s in
      if mutable t then Some (Threw (AssertionError ''Cannot add mutable TX to wallet.''), s)
      else
        (case existing of
           Some ex \<Rightarrow>
             if height ex \<noteq> -1 then Some (Returned None, s)
             else if height t = -1 then Some (Returned None, s)
             else Some (andThen (u_confirm e (ex\<lparr>height := height t, block := block t,
                                                 ts := ts t, index := index t\<rparr>))
                                (\<lambda>d. ret (Some d)) s)
         | None \<Rightarrow>
             if height t = -1 then
               (if isRBF t s then Some (andThen (put (Kr (txid t)) DUMMY) (\<lambda>_. ret None) s)
                else
                  (case removeConflicts n e t True s of
                     None \<Rightarrow> None
                   | Some (Threw err, s') \<Rightarrow> Some (Threw err, s')
                   | Some (Returned ok, s') \<Rightarrow>
                       if \<not> ok then Some (Returned None, s')
                       else Some (insert_tx e t s')))
             else
               (case removeConflicts n e t False s of
                  None \<Rightarrow> None
                | Some (Threw err, s') \<Rightarrow> Some (Threw err, s')
                | Some (Returned _, s') \<Rightarrow>
                    Some (andThen (del (Kr (txid t))) (\<lambda>_. insert_tx e t) s'))))"

definition add :: "nat \<Rightarrow> env \<Rightarrow> tx \<Rightarrow> details option deep" where
  "add n e t s =
     (case u_add n e t (start s) of
        None \<Rightarrow> None
      | Some (Threw err, s') \<Rightarrow> Some (Threw err, drop_batch s')
      | Some (Returned r, s') \<Rightarrow> Some (andThen commit (\<lambda>_. ret r) s'))"

text \<open>\<^verbatim>\<open>confirm(hash, block)\<close>; \<open>blk = None\<close> is a call without a block.\<close>

definition confirm :: "env \<Rightarrow> hash \<Rightarrow> blockmeta option \<Rightarrow> details option action" where
  "confirm e h blk s =
     (case getTX h s of
        None \<Rightarrow> (Returned None, s)
      | Some t \<Rightarrow>
          if height t \<noteq> -1 then (Threw (Error ''TX is already confirmed.''), s)
          else
            (case blk of
               None \<Rightarrow> (Threw (AssertionError ''block''), s)
             | Some b \<Rightarrow>
                 (case u_confirm e (t\<lparr>height := bm_height b, block := bm_block b, ts := bm_ts b\<rparr>)
                         (start s) of
                    (Threw err, s') \<Rightarrow> (Threw err, drop_batch s')
                  | (Returned d, s') \<Rightarrow> andThen commit (\<lambda>_. ret (Some d)) s')))"

definition remove :: "nat \<Rightarrow> env \<Rightarrow> hash \<Rightarrow> details option deep" where
  "remove n e h s =
     (case getTX h s of
        None \<Rightarrow> Some (Returned None, s)
      | Some t \<Rightarrow>
          (case removeRecursive n e t s of
             None \<Rightarrow> None
           | Some (Threw err, s') \<Rightarrow> Some (Threw err, s')
           | Some (Returned d, s') \<Rightarrow> Some (Returned (Some d), s')))"



section \<open>Balance from the stored credits\<close>

text \<open>\<^verbatim>\<open>getCredits()\<close> without an account: the range scan over \<^verbatim>\<open>c[*][*]\<close>, which also fills
  the coin cache.\<close>

fun scanCredits :: "kvstore \<Rightarrow> credit list" where
  "scanCredits [] = []"
| "scanCredits ((Kc h i, VCredit raw sp) # rest) = Credit_fromRaw (raw, sp) h i # scanCredits rest"
| "scanCredits (kv # rest) = scanCredits rest"

definition getCredits :: "credit list action" where
  "getCredits s =
     (Returned (scanCredits (store s)),
      s\<lparr>coinCache := foldl (\<lambda>c cr. lru_set (coin_hash (coin cr), coin_index (coin cr))
                                           (Coin_toRaw (coin cr), spent cr) c)
                          (coinCache s) (scanCredits (store s))\<rparr>)"

text \<open>The loop of \<^verbatim>\<open>getWalletBalance\<close>; the result is (unconfirmed, confirmed).\<close>

fun sumBalance :: "credit list \<Rightarrow> int \<times> int \<Rightarrow> int \<times> int" where
  "sumBalance [] bal = bal"
| "sumBalance (cr # rest) bal =
     sumBalance rest
       (if spent cr then fst bal else fst bal + coin_value (coin cr),
        if coin_height (coin cr) \<noteq> -1 then snd bal + coin_value (coin cr) else snd bal)"

definition getWalletBalance :: "(int \<times> int) action" where
  "getWalletBalance = andThen getCredits (\<lambda>credits. ret (sumBalance credits (0, 0)))"

section \<open>Orphan tracking for SPV mode\<close>

text \<open>
  First loop of \<^verbatim>\<open>verifyInputs\<close>: \<^verbatim>\<open>orphans[i]\<close> for every input, or \<open>None\<close> for the early
  \<^verbatim>\<open>return false\<close> of a failed script verification.
\<close>

definition verifyCoin :: "env \<Rightarrow> tx \<Rightarrow> nat \<Rightarrow> coin \<Rightarrow> bool" where
  "verifyCoin e t i c = (if options_verify e \<and> height t = -1 then verifyInputAsync e t i c else True)"

fun checkInputs :: "env \<Rightarrow> tx \<Rightarrow> nat \<Rightarrow> input list \<Rightarrow> bool list \<Rightarrow> bool list option action" where
  "checkInputs e t i [] orphs = ret (Some orphs)"
| "checkInputs e t i (inp # rest) orphs =
     andThen (getCoin (op_hash (prevout inp)) (op_index (prevout inp))) (\<lambda>found.
       case found of
         Some c \<Rightarrow>
           if verifyCoin e t i c then checkInputs e t (Suc i) rest (orphs @ [False]) else ret None
       | None \<Rightarrow>
           andThen (\<lambda>s. (Returned
                      (case getSpent (op_hash (prevout inp)) (op_index (prevout inp)) s of
                         None \<Rightarrow> None
                       | Some sp \<Rightarrow> getSpentCoin sp (prevout inp) s), s)) (\<lambda>undo.
             case undo of
               Some c \<Rightarrow>
                 if verifyCoin e t i c then checkInputs e t (Suc i) rest (orphs @ [False])
                 else ret None
             | None \<Rightarrow> checkInputs e t (Suc i) rest (orphs @ [hasPath e (in_script inp)])))"

text \<open>One round of the second loop for an input marked as orphan.\<close>

definition purgeOrphans :: "txdb \<Rightarrow> txdb" where
  "purgeOrphans s =
     (if totalOrphans s > 20
      then s\<lparr>totalOrphans := 0, orphans := Map.empty, count := Map.empty\<rparr>
      else s)"

definition truthy :: "int option \<Rightarrow> bool" where
  "truthy c = (case c of None \<Rightarrow> False | Some n \<Rightarrow> n \<noteq> 0)"

definition stashOrphan :: "tx \<Rightarrow> nat \<Rightarrow> input \<Rightarrow> blockmeta option \<Rightarrow> txdb \<Rightarrow> txdb" where
  "stashOrphan t i inp blk s0 =
     (let s = purgeOrphans s0;
          k = (op_hash (prevout inp), op_index (prevout inp));
          olist = (case orphans s k of None \<Rightarrow> [] | Some l \<Rightarrow> l);
          c = (case count s (txid t) of None \<Rightarrow> 0 | Some n \<Rightarrow> n)
      in s\<lparr>orphans := (orphans s)(k \<mapsto> olist @ [Orphan t i blk]),
           count := (count s)(txid t \<mapsto> c + 1),
           totalOrphans := totalOrphans s + 1\<rparr>)"

fun stashOrphans :: "tx \<Rightarrow> blockmeta option \<Rightarrow> nat \<Rightarrow> input list \<Rightarrow> bool list \<Rightarrow> bool
    \<Rightarrow> txdb \<Rightarrow> bool \<times> txdb" where
  "stashOrphans t blk i [] orphs hasOrphans s = (hasOrphans, s)"
| "stashOrphans t blk i (inp # rest) orphs hasOrphans s =
     (if \<not> (orphs ! i) then stashOrphans t blk (Suc i) rest orphs hasOrphans s
      else stashOrphans t blk (Suc i) rest orphs True (stashOrphan t i inp blk s))"

definition verifyInputs :: "env \<Rightarrow> tx \<Rightarrow> blockmeta option \<Rightarrow> bool action" where
  "verifyInputs e t blk s =
     (if tx_isCoinbase t then (Returned True, s)
      else if truthy (count s (txid t)) then (Returned False, s)
      else
        (case checkInputs e t 0 (inputs t) [] s of
           (Threw err, s') \<Rightarrow> (Threw err, s')
         | (Returned None, s') \<Rightarrow> (Returned False, s')
         | (Returned (Some orphs), s') \<Rightarrow>
             (case stashOrphans t blk 0 (inputs t) orphs False s' of
                (hasOrphans, s'') \<Rightarrow> (Returned (\<not> hasOrphans), s''))))"

section \<open>Vocabulary of the properties\<close>

text \<open>
  A TXDB between two entry points: no batch is open, nothing is pending and the event
  buffer is empty. Every entry point ends in \<^verbatim>\<open>commit\<close> or \<^verbatim>\<open>drop\<close>, which leave such a
  state.
\<close>

definition idle :: "txdb \<Rightarrow> bool" where
  "idle s = (current s = None \<and> pending s = None \<and> events s = []
             \<and> lru_pending (coinCache s) = None)"

text \<open>An action that never throws a plain \<^verbatim>\<open>Error\<close>: it fails by assertion or type error only.\<close>

definition assertsOnly :: "'a action \<Rightarrow> bool" where
  "assertsOnly m = (\<forall>s s' msg. m s \<noteq> (Threw (Error msg), s'))"

text \<open>The confirm transition: \<^verbatim>\<open>_confirm\<close> run in a batch of its own, committed on success and
  dropped on an error, as \<^verbatim>\<open>add\<close> and \<^verbatim>\<open>confirm\<close> both run it.\<close>

definition confirmTransition :: "env \<Rightarrow> tx \<Rightarrow> details option action" where
  "confirmTransition e t s =
     (case u_confirm e t (start s) of
        (Threw err, s') \<Rightarrow> (Threw err, drop_batch s')
      | (Returned d, s') \<Rightarrow> andThen commit (\<lambda>_. ret (Some d)) s')"

text \<open>The spent marker of an input, as \<^verbatim>\<open>removeConflicts\<close> reads it.\<close>

definition markerOf :: "input \<Rightarrow> txdb \<Rightarrow> outpoint option" where
  "markerOf inp s = getSpent (op_hash (prevout inp)) (op_index (prevout inp)) s"

text \<open>
  \<open>stages Q m\<close>: when \<open>m\<close> returns, it has left the store alone and has appended to the
  open batch only operations that satisfy \<open>Q\<close>.
\<close>

fun opKey :: "batchop \<Rightarrow> key" where
  "opKey (Put k v) = k"
| "opKey (Del k) = k"

definition stages :: "(batchop \<Rightarrow> bool) \<Rightarrow> 'a action \<Rightarrow> bool" where
  "stages Q m =
     (\<forall>s r s'. m s = (Returned r, s') \<longrightarrow>
        store s' = store s
        \<and> (\<exists>new. current s' = map_option (\<lambda>ops. ops @ new) (current s) \<and> list_all Q new))"

text \<open>
  \<open>settles op m\<close>: when \<open>m\<close> returns, a batch was open, \<open>m\<close> has staged \<open>op\<close> and after it no
  other operation on the key of \<open>op\<close>, and it has left the store alone. Writing the batch
  then leaves the key as \<open>op\<close> sets it.
\<close>

definition settles :: "batchop \<Rightarrow> 'a action \<Rightarrow> bool" where
  "settles op m =
     (\<forall>s r s'. m s = (Returned r, s') \<longrightarrow>
        store s' = store s
        \<and> (\<exists>ops pre post. current s = Some ops \<and> current s' = Some (ops @ pre @ op # post)
              \<and> list_all (\<lambda>op'. opKey op' \<noteq> opKey op) post))"



section \<open>A small wallet for the concrete runs\<close>

text \<open>The wallet owns script 1 (account 0) and nothing else.\<close>

definition ex_env :: env where
  "ex_env = \<lparr>wallet_getPath = (\<lambda>sc. if sc = 1 then Some 0 else None),
             wallet_hasPath = (\<lambda>sc. sc = 1),
             options_resolution = True, options_verify = False,
             verifyInputAsync = (\<lambda>_ _ _. True)\<rparr>"

text \<open>The TXDB of a newly created wallet.\<close>

definition ex_fresh :: txdb where
  "ex_fresh = \<lparr>store = [], current = None, state = new_TXDBState, pending = None, events = [],
               coinCache = \<lparr>lru_items = Map.empty, lru_pending = None\<rparr>, locked = {},
               orphans = Map.empty, count = Map.empty, totalOrphans = 0\<rparr>"

definition mkTX :: "hash \<Rightarrow> input list \<Rightarrow> txoutput list \<Rightarrow> int \<Rightarrow> tx" where
  "mkTX h ins outs hgt =
     \<lparr>txid = h, inputs = ins, outputs = outs, height = hgt,
      block = (if hgt = -1 then None else Some ''blk''), ts = 0, index = -1, ps = 7,
      mutable = False, tx_isCoinbase = False, tx_isRBF = False\<rparr>"

definition spend :: "hash \<Rightarrow> nat \<Rightarrow> input" where
  "spend h i = \<lparr>prevout = Outpoint h i, in_script = 1\<rparr>"

definition pay :: "int \<Rightarrow> script \<Rightarrow> txoutput" where
  "pay v sc = \<lparr>out_value = v, out_script = sc\<rparr>"

text \<open>Entry points called one after the other; \<open>None\<close> when a call does not come back.\<close>

definition addAll :: "tx list \<Rightarrow> txdb \<Rightarrow> txdb option" where
  "addAll txs s =
     foldl (\<lambda>so t. case so of None \<Rightarrow> None | Some s' \<Rightarrow> map_option snd (add 2 ex_env t s'))
           (Some s) txs"

text \<open>A funding transaction paying the wallet twice, and two transactions that both spend
  its two outputs.\<close>

definition ex_fund :: tx where
  "ex_fund = mkTX ''fund'' [spend ''other'' 0] [pay 10 1, pay 10 1] (-1)"

definition ex_first :: tx where
  "ex_first = mkTX ''first'' [spend ''fund'' 0, spend ''fund'' 1] [pay 15 1] (-1)"

definition ex_second :: tx where
  "ex_second = mkTX ''second'' [spend ''fund'' 0, spend ''fund'' 1] [pay 12 1] (-1)"

definition after :: "tx list \<Rightarrow> txdb" where
  "after txs = (case addAll txs ex_fresh of Some s \<Rightarrow> s | None \<Rightarrow> ex_fresh)"

definition ex_block :: blockmeta where
  "ex_block = \<lparr>bm_block = Some ''blk'', bm_height = 100, bm_ts = 5\<rparr>"

text \<open>The funding transaction as a block delivers it, and a copy that is still mutable.\<close>

definition ex_fund_mined :: tx where
  "ex_fund_mined = ex_fund\<lparr>height := 100, block := Some ''blk'', ts := 5, index := 3\<rparr>"

definition ex_fund_mutable :: tx where
  "ex_fund_mutable = ex_fund_mined\<lparr>mutable := True\<rparr>"

text \<open>A transaction that signals replace-by-fee, and a mutable copy of it.\<close>

definition ex_rbf :: tx where
  "ex_rbf = (mkTX ''rbf'' [spend ''other'' 1] [pay 4 1] (-1))\<lparr>tx_isRBF := True\<rparr>"

definition ex_rbf_mutable :: tx where
  "ex_rbf_mutable = ex_rbf\<lparr>mutable := True\<rparr>"


text \<open>
  A mined transaction one of whose two inputs carries the null outpoint, a coinbase
  transaction (its single input carries the null outpoint), and a rival of \<open>ex_fund\<close>.
\<close>

definition nullInput :: input where
  "nullInput = \<lparr>prevout = Outpoint NULL_HASH 4294967295, in_script = 0\<rparr>"

definition ex_joint :: tx where
  "ex_joint = mkTX ''joint'' [nullInput, spend ''other'' 3] [pay 10 1] 100"

definition ex_coinbase :: tx where
  "ex_coinbase = (mkTX ''coinbase'' [nullInput] [pay 50 1] (-1))\<lparr>tx_isCoinbase := True\<rparr>"

definition ex_rival :: tx where
  "ex_rival = mkTX ''rival'' [spend ''other'' 0] [pay 7 1] (-1)"

text \<open>
  Transactions that each spend one unknown outpoint with a script of the wallet (orphan
  candidates in SPV mode); \<open>ex_orphan i\<close> has the hash of \<open>i\<close> letters \<open>a\<close>. \<open>verifyAll\<close>
  feeds a list of transactions to \<^verbatim>\<open>verifyInputs\<close>, one after the other.
\<close>

definition ex_orphan :: "nat \<Rightarrow> tx" where
  "ex_orphan i = mkTX (replicate i (CHR ''a'')) [spend ''unknown'' i] [pay 1 0] (-1)"

definition verifyAll :: "tx list \<Rightarrow> txdb \<Rightarrow> txdb" where
  "verifyAll txs s = foldl (\<lambda>s' t. snd (verifyInputs ex_env t None s')) s txs"

text \<open>The tracker after the first \<open>k\<close> of these transactions went through \<^verbatim>\<open>verifyInputs\<close>
  on a wallet without coins: \<open>k\<close> orphans are held, one per transaction.\<close>

definition holdsOrphans :: "nat \<Rightarrow> txdb \<Rightarrow> bool" where
  "holdsOrphans k s =
     (store s = [] \<and> lru_items (coinCache s) = Map.empty \<and> totalOrphans s = int k
      \<and> (\<forall>h. count s h = (if \<exists>j. 1 \<le> j \<and> j \<le> k \<and> h = replicate j (CHR ''a'')
                           then Some 1 else None))
      \<and> (\<forall>j. map_option length (orphans s (''unknown'', j))
                = (if 1 \<le> j \<and> j \<le> k then Some 1 else None)))"

section \<open>Basic facts about actions and the batch protocol\<close>

lemma andThen_ret [simp]: "andThen (ret x) f = f x"
  by (rule ext) (simp add: andThen_def ret_def)

lemma andThen_throw [simp]: "andThen (throw err) f = throw err"
  by (rule ext) (simp add: andThen_def throw_def)

lemma andThen_ReturnedD:
  "andThen m f s = (Returned r, s') \<Longrightarrow> \<exists>x s1. m s = (Returned x, s1) \<and> f x s1 = (Returned r, s')"
  by (auto simp add: andThen_def split: prod.splits outcome.splits)

lemma drop_start_idle: "idle s \<Longrightarrow> drop_batch (start s) = s"
  by (simp add: idle_def drop_batch_def start_def lru_drop_def lru_start_def)

lemma getTX_start [simp]: "getTX h (start s) = getTX h s"
  by (simp add: getTX_def get_def start_def)

lemma has_start [simp]: "has k (start s) = has k s"
  by (simp add: has_def start_def)

lemma getSpent_start [simp]: "getSpent h i (start s) = getSpent h i s"
  by (simp add: getSpent_def get_def start_def)

lemma markerOf_start [simp]: "markerOf inp (start s) = markerOf inp s"
  by (simp add: markerOf_def)

lemma current_start [simp]: "current (start s) = Some []"
  by (simp add: start_def)

lemma store_start [simp]: "store (start s) = store s"
  by (simp add: start_def)

lemma commit_ReturnedD:
  "commit s = (Returned r, s') \<Longrightarrow>
     store s' = writeBatch (case current s of None \<Rightarrow> [] | Some ops \<Rightarrow> ops) (store s)"
  by (auto simp: commit_def Let_def split: option.splits if_splits)

text \<open>A batch that stages nothing and commits no state changes nothing.\<close>

lemma empty_batch_commit:
  "\<exists>s'. andThen commit (\<lambda>_. ret r) (start s) = (Returned r, s')
         \<and> store s' = store s \<and> state s' = state s \<and> (idle s \<longrightarrow> s' = s)"
  by (simp add: andThen_def commit_def Let_def writeBatch_def start_def clone_def ret_def
                lru_commit_def lru_start_def idle_def)

lemma add_mutable:
  assumes "mutable t"
  shows "\<exists>s'. add n e t s = Some (Threw (AssertionError ''Cannot add mutable TX to wallet.''), s')
           \<and> store s' = store s \<and> state s' = state s
           \<and> lru_items (coinCache s') = lru_items (coinCache s)
           \<and> events s' = [] \<and> (idle s \<longrightarrow> s' = s)"
  using assms
  by (simp add: add_def u_add_def Let_def drop_start_idle)
     (simp add: drop_batch_def start_def lru_drop_def lru_start_def)

subsection \<open>What a batch writes\<close>

lemma map_of_applyOp:
  "map_of (applyOp kv op) k =
     (if opKey op = k then (case op of Put _ v \<Rightarrow> Some v | Del _ \<Rightarrow> None) else map_of kv k)"
  by (cases op) (auto simp: update_conv' delete_conv')

lemma map_of_writeBatch_other:
  "list_all (\<lambda>op. opKey op \<noteq> k) ops \<Longrightarrow> map_of (writeBatch ops kv) k = map_of kv k"
  unfolding writeBatch_def
  by (induction ops arbitrary: kv) (auto simp: map_of_applyOp)

lemma writeBatch_snoc:
  "writeBatch (pre @ op # post) kv = writeBatch post (applyOp (writeBatch pre kv) op)"
  by (simp add: writeBatch_def)

lemma map_of_writeBatch_settled:
  assumes "list_all (\<lambda>op'. opKey op' \<noteq> opKey op) post"
  shows "map_of (writeBatch (pre @ op # post) kv) (opKey op)
           = (case op of Put _ v \<Rightarrow> Some v | Del _ \<Rightarrow> None)"
  unfolding writeBatch_snoc
  using assms by (simp add: map_of_writeBatch_other map_of_applyOp)


subsection \<open>Actions that fail by assertion only\<close>

lemma ao_ret: "assertsOnly (ret x)"
  by (simp add: assertsOnly_def ret_def)

lemma ao_throwA: "assertsOnly (throw (AssertionError m))"
  by (simp add: assertsOnly_def throw_def)

lemma ao_throwT: "assertsOnly (throw (TypeError m))"
  by (simp add: assertsOnly_def throw_def)

lemma ao_andThen: "assertsOnly m \<Longrightarrow> (\<And>x. assertsOnly (f x)) \<Longrightarrow> assertsOnly (andThen m f)"
  unfolding assertsOnly_def andThen_def
  by (auto split: prod.splits outcome.splits)

lemma ao_if: "assertsOnly a \<Longrightarrow> assertsOnly b \<Longrightarrow> assertsOnly (if c then a else b)"
  by simp

lemma ao_put: "assertsOnly (put k v)"
  by (simp add: assertsOnly_def put_def split: option.splits)

lemma ao_del: "assertsOnly (del k)"
  by (simp add: assertsOnly_def del_def split: option.splits)

lemma ao_modPending: "assertsOnly (modPending f)"
  by (simp add: assertsOnly_def modPending_def split: option.splits)

lemma ao_emit: "assertsOnly (emit ev d x)"
  by (simp add: assertsOnly_def emit_def)

lemma ao_assert: "assertsOnly (assert b m)"
  by (simp add: assert_def ao_ret ao_throwA)

lemma ao_commitState: "assertsOnly commitState"
  using ao_put by (auto simp add: assertsOnly_def commitState_def split: option.splits)

lemma ao_emitBalance: "assertsOnly (emitBalance d)"
  using ao_emit by (auto simp add: assertsOnly_def emitBalance_def split: option.splits)

lemma ao_getCredit: "assertsOnly (getCredit h i)"
  by (simp add: assertsOnly_def getCredit_def split: option.splits val.splits)

lemma ao_pure: "assertsOnly (\<lambda>s. (Returned (f s), g s))"
  by (simp add: assertsOnly_def)

lemma ao_saveCredit: "assertsOnly (saveCredit cr a)"
  unfolding saveCredit_def by (intro ao_andThen ao_put ao_pure)

lemma ao_removeCredit: "assertsOnly (removeCredit cr a)"
  unfolding removeCredit_def by (intro ao_andThen ao_del ao_pure)

lemma ao_inputAt: "assertsOnly (inputAt t i)"
  by (simp add: inputAt_def ao_ret ao_throwT)

lemma ao_spendCredit: "assertsOnly (spendCredit cr t i)"
  unfolding spendCredit_def Let_def by (intro ao_andThen ao_put ao_inputAt)

lemma ao_updateSpentCoin: "assertsOnly (updateSpentCoin t i)"
  using ao_put
  by (auto simp add: assertsOnly_def updateSpentCoin_def Let_def split: option.splits)

lemma ao_addBlock: "assertsOnly (addBlock t)"
  using ao_put
  by (auto simp add: assertsOnly_def addBlock_def Let_def split: option.splits)

lemma ao_unlockTX: "assertsOnly (unlockTX t)"
  by (simp add: assertsOnly_def unlockTX_def)

lemma scanSpent_noError: "scanSpent t kv credits \<noteq> Threw (Error msg)"
  by (induction t kv credits rule: scanSpent.induct) auto

lemma ao_getSpentCredits: "assertsOnly (liftOutcome (getSpentCredits t))"
  by (simp add: assertsOnly_def liftOutcome_def getSpentCredits_def scanSpent_noError)

lemma ao_confirm_inputs: "assertsOnly (confirm_inputs e t i ins credits d)"
proof (induction ins arbitrary: i d)
  case Nil
  show ?case by (simp add: ao_ret)
next
  case (Cons inp rest)
  show ?case
    unfolding confirm_inputs.simps
    by (intro ao_andThen ao_assert ao_modPending ao_removeCredit Cons ao_ret ao_getCredit
              ao_spendCredit ao_throwA
        | simp split: option.split | intro conjI impI allI)+
qed

lemma ao_confirm_outputs: "assertsOnly (confirm_outputs e t i outs d)"
proof (induction outs arbitrary: i d)
  case Nil
  show ?case by (simp add: ao_ret)
next
  case (Cons out rest)
  show ?case
    unfolding confirm_outputs.simps
    by (intro ao_andThen ao_modPending ao_saveCredit Cons ao_ret ao_getCredit ao_if
              ao_updateSpentCoin ao_throwA
        | simp split: option.split | intro conjI impI allI)+
qed

lemma ao_confirm_accounts: "assertsOnly (confirm_accounts t as)"
  by (induction as) (auto intro!: ao_andThen ao_put ao_del ao_ret)

lemma ao_u_confirm: "assertsOnly (u_confirm e t)"
  unfolding u_confirm_def
  by (intro ao_andThen ao_if ao_getSpentCredits ao_confirm_inputs ao_confirm_outputs ao_ret
            ao_del ao_put ao_confirm_accounts ao_addBlock ao_commitState ao_unlockTX ao_emit
            ao_emitBalance)

lemma ao_commit: "assertsOnly commit"
  by (simp add: assertsOnly_def commit_def Let_def split: option.splits)

subsection \<open>What an action stages\<close>

lemma stagesD:
  "stages Q m \<Longrightarrow> m s = (Returned r, s') \<Longrightarrow>
     store s' = store s \<and> (\<exists>new. current s' = map_option (\<lambda>ops. ops @ new) (current s) \<and> list_all Q new)"
  unfolding stages_def by blast

lemma stages_silent:
  assumes "\<And>s r s'. m s = (Returned r, s') \<Longrightarrow> store s' = store s \<and> current s' = current s"
  shows "stages Q m"
  unfolding stages_def
proof (intro allI impI)
  fix s r s' assume "m s = (Returned r, s')"
  from assms[OF this] show "store s' = store s \<and>
        (\<exists>new. current s' = map_option (\<lambda>ops. ops @ new) (current s) \<and> list_all Q new)"
    by (intro conjI exI[of _ "[]"]) (auto simp: option.map_ident)
qed

lemma stages_ret: "stages Q (ret x)"
  by (rule stages_silent) (simp add: ret_def)

lemma stages_throw: "stages Q (throw err)"
  by (simp add: stages_def throw_def)

lemma stages_andThen:
  assumes "stages Q m" and "\<And>x. stages Q (f x)"
  shows "stages Q (andThen m f)"
  unfolding stages_def
proof (intro allI impI)
  fix s r s'
  assume "andThen m f s = (Returned r, s')"
  then obtain x s1 where m: "m s = (Returned x, s1)" and f: "f x s1 = (Returned r, s')"
    by (auto dest: andThen_ReturnedD)
  from stagesD[OF assms(1) m] obtain n1 where
    a: "store s1 = store s" "current s1 = map_option (\<lambda>ops. ops @ n1) (current s)" "list_all Q n1"
    by blast
  from stagesD[OF assms(2) f] obtain n2 where
    b: "store s' = store s1" "current s' = map_option (\<lambda>ops. ops @ n2) (current s1)" "list_all Q n2"
    by blast
  have "current s' = map_option (\<lambda>ops. ops @ (n1 @ n2)) (current s)"
    using a(2) b(2) by (cases "current s") auto
  with a b show "store s' = store s \<and>
        (\<exists>new. current s' = map_option (\<lambda>ops. ops @ new) (current s) \<and> list_all Q new)"
    by (intro conjI exI[of _ "n1 @ n2"]) auto
qed

lemma stages_if: "stages Q a \<Longrightarrow> stages Q b \<Longrightarrow> stages Q (if c then a else b)"
  by simp

lemma stages_put: "Q (Put k v) \<Longrightarrow> stages Q (put k v)"
  unfolding stages_def put_def
  by (auto split: option.splits intro!: exI[of _ "[Put k v]"])

lemma stages_del: "Q (Del k) \<Longrightarrow> stages Q (del k)"
  unfolding stages_def del_def
  by (auto split: option.splits intro!: exI[of _ "[Del k]"])

lemma stages_modPending: "stages Q (modPending f)"
  by (rule stages_silent) (auto simp: modPending_def split: option.splits)

lemma stages_emit: "stages Q (emit ev x d)"
  by (rule stages_silent) (auto simp: emit_def)

lemma stages_emitBalance: "stages Q (emitBalance d)"
  by (rule stages_silent) (auto simp: emitBalance_def emit_def split: option.splits)

lemma stages_unlockTX: "stages Q (unlockTX t)"
  by (rule stages_silent) (auto simp: unlockTX_def split: if_splits)

lemma stages_liftOutcome: "stages Q (liftOutcome f)"
  by (rule stages_silent) (auto simp: liftOutcome_def)

lemma stages_assert: "stages Q (assert b msg)"
  by (simp add: assert_def stages_ret stages_throw)

lemma stages_getCredit: "stages Q (getCredit h i)"
  by (rule stages_silent) (auto simp: getCredit_def split: option.splits val.splits)

lemma stages_commitState: "(\<And>v. Q (Put KR v)) \<Longrightarrow> stages Q commitState"
  unfolding stages_def commitState_def put_def
  by (auto split: option.splits intro!: exI[of _ "[Put KR v]" for v])


lemma stages_noop: "m s = (Returned r, s) \<Longrightarrow>
    store s = store s \<and> (\<exists>new. current s = map_option (\<lambda>ops. ops @ new) (current s) \<and> list_all Q new)"
  by (intro conjI exI[of _ "[]"]) (auto simp: option.map_ident)

lemma stages_addBlock:
  assumes "\<And>v. Q (Put (Kb (height t)) v)"
  shows "stages Q (addBlock t)"
  unfolding stages_def
proof (intro allI impI)
  fix s r s'
  assume run: "addBlock t s = (Returned r, s')"
  let ?b = "case getBlock (height t) s of
              None \<Rightarrow> new_BlockRecord (block t) (height t) (ts t) | Some b \<Rightarrow> b"
  show "store s' = store s \<and>
        (\<exists>new. current s' = map_option (\<lambda>ops. ops @ new) (current s) \<and> list_all Q new)"
  proof (cases "BlockRecord_add (txid t) ?b")
    case None
    with run have "s' = s" by (simp add: addBlock_def Let_def)
    then show ?thesis using stages_noop[of "ret ()" s "()" Q] by (simp add: ret_def)
  next
    case (Some b')
    with run have "put (Kb (height t)) (VBlock b') s = (Returned r, s')"
      by (simp add: addBlock_def Let_def)
    from stagesD[OF stages_put this] assms show ?thesis by blast
  qed
qed

lemma stages_saveCredit:
  "Q (Put (Kc (coin_hash (coin cr)) (coin_index (coin cr))) (Credit_toRaw cr)) \<Longrightarrow>
   Q (Put (KC a (coin_hash (coin cr)) (coin_index (coin cr))) DUMMY) \<Longrightarrow>
   stages Q (saveCredit cr a)"
  unfolding saveCredit_def
  by (intro stages_andThen stages_put stages_silent) auto

lemma stages_removeCredit:
  "Q (Del (Kc (coin_hash (coin cr)) (coin_index (coin cr)))) \<Longrightarrow>
   Q (Del (KC a (coin_hash (coin cr)) (coin_index (coin cr)))) \<Longrightarrow>
   stages Q (removeCredit cr a)"
  unfolding removeCredit_def
  by (intro stages_andThen stages_del stages_silent) auto

lemma stages_spendCredit:
  "(i < length (inputs t) \<Longrightarrow>
      Q (Put (Ks (op_hash (prevout (inputs t ! i))) (op_index (prevout (inputs t ! i))))
             (VOutpoint (Outpoint (txid t) i))) \<and>
      Q (Put (Kd (txid t) i) (VCoin (Coin_toRaw (coin cr))))) \<Longrightarrow>
   stages Q (spendCredit cr t i)"
  unfolding spendCredit_def Let_def inputAt_def
  by (cases "i < length (inputs t)")
     (auto intro!: stages_andThen stages_put stages_throw simp: Outpoint_fromTX_def)


lemma stages_writeInput:
  "(i < length (inputs t) \<Longrightarrow>
      Q (Put (Ks (op_hash (prevout (inputs t ! i))) (op_index (prevout (inputs t ! i))))
             (VOutpoint (Outpoint (txid t) i)))) \<Longrightarrow>
   stages Q (writeInput t i)"
  unfolding writeInput_def Let_def inputAt_def
  by (cases "i < length (inputs t)")
     (auto intro!: stages_put stages_throw simp: Outpoint_fromTX_def)


lemma stages_updateSpentCoin:
  assumes "\<And>h i v. Q (Put (Kd h i) v)"
  shows "stages Q (updateSpentCoin t i)"
  unfolding stages_def
proof (intro allI impI)
  fix s r s'
  assume run: "updateSpentCoin t i s = (Returned r, s')"
  let ?prev = "Outpoint_fromTX t i"
  show "store s' = store s \<and>
        (\<exists>new. current s' = map_option (\<lambda>ops. ops @ new) (current s) \<and> list_all Q new)"
  proof (cases "getSpent (op_hash ?prev) (op_index ?prev) s")
    case None
    with run have "s' = s" by (simp add: updateSpentCoin_def Let_def)
    then show ?thesis using stages_noop[of "ret ()" s "()" Q] by (simp add: ret_def)
  next
    case (Some sp)
    show ?thesis
    proof (cases "getSpentCoin sp ?prev s")
      case None
      with run Some have "s' = s" by (simp add: updateSpentCoin_def Let_def)
      then show ?thesis using stages_noop[of "ret ()" s "()" Q] by (simp add: ret_def)
    next
      case (Some c)
      with run \<open>getSpent (op_hash ?prev) (op_index ?prev) s = Some sp\<close>
      have "put (Kd (op_hash sp) (op_index sp)) (VCoin (Coin_toRaw (c\<lparr>coin_height := height t\<rparr>))) s
              = (Returned r, s')"
        by (simp add: updateSpentCoin_def Let_def)
      from stagesD[OF stages_put this] assms show ?thesis by blast
    qed
  qed
qed





lemma stages_confirm_inputs: "stages (\<lambda>_. True) (confirm_inputs e t i ins credits d)"
proof (induction ins arbitrary: i d)
  case Nil
  show ?case by (simp add: stages_ret)
next
  case (Cons inp rest)
  show ?case
    unfolding confirm_inputs.simps
    by (intro stages_andThen stages_assert stages_modPending stages_removeCredit Cons stages_ret
              stages_getCredit stages_spendCredit stages_throw
        | simp split: option.split | intro conjI impI allI)+
qed

lemma stages_confirm_outputs: "stages (\<lambda>_. True) (confirm_outputs e t i outs d)"
proof (induction outs arbitrary: i d)
  case Nil
  show ?case by (simp add: stages_ret)
next
  case (Cons out rest)
  show ?case
    unfolding confirm_outputs.simps
    by (intro stages_andThen stages_modPending stages_saveCredit Cons stages_ret stages_getCredit
              stages_if stages_updateSpentCoin stages_throw
        | simp split: option.split | intro conjI impI allI)+
qed

lemma stages_confirm_accounts:
  "(\<And>a. Q (Del (KP a (txid t))) \<and> Q (Put (KH a (height t) (txid t)) DUMMY))
     \<Longrightarrow> stages Q (confirm_accounts t as)"
  by (induction as) (auto intro!: stages_ret stages_andThen stages_del stages_put)

subsection \<open>Operations that an action settles\<close>

lemma settlesD:
  "settles op m \<Longrightarrow> m s = (Returned r, s') \<Longrightarrow>
     store s' = store s
     \<and> (\<exists>ops pre post. current s = Some ops \<and> current s' = Some (ops @ pre @ op # post)
           \<and> list_all (\<lambda>op'. opKey op' \<noteq> opKey op) post)"
  unfolding settles_def by blast

lemma settles_put: "settles (Put k v) (put k v)"
  unfolding settles_def put_def
  by (auto split: option.splits intro!: exI[of _ "[]"])

lemma settles_del: "settles (Del k) (del k)"
  unfolding settles_def del_def
  by (auto split: option.splits intro!: exI[of _ "[]"])

lemma settles_after:
  assumes "stages Q m" and "\<And>x. settles op (f x)"
  shows "settles op (andThen m f)"
  unfolding settles_def
proof (intro allI impI)
  fix s r s'
  assume "andThen m f s = (Returned r, s')"
  then obtain x s1 where m: "m s = (Returned x, s1)" and f: "f x s1 = (Returned r, s')"
    by (auto dest: andThen_ReturnedD)
  from stagesD[OF assms(1) m] obtain n1 where
    a: "store s1 = store s" "current s1 = map_option (\<lambda>ops. ops @ n1) (current s)"
    by blast
  from settlesD[OF assms(2) f] obtain ops pre post where
    b: "store s' = store s1" "current s1 = Some ops" "current s' = Some (ops @ pre @ op # post)"
       "list_all (\<lambda>op'. opKey op' \<noteq> opKey op) post"
    by blast
  from a(2) b(2) obtain ops0 where c: "current s = Some ops0" "ops = ops0 @ n1"
    by (cases "current s") auto
  show "store s' = store s \<and>
        (\<exists>ops pre post. current s = Some ops \<and> current s' = Some (ops @ pre @ op # post)
              \<and> list_all (\<lambda>op'. opKey op' \<noteq> opKey op) post)"
    using a b c by (intro conjI exI[of _ ops0] exI[of _ "n1 @ pre"] exI[of _ post]) auto
qed

lemma settles_before:
  assumes "settles op m" and "\<And>x. stages (\<lambda>op'. opKey op' \<noteq> opKey op) (f x)"
  shows "settles op (andThen m f)"
  unfolding settles_def
proof (intro allI impI)
  fix s r s'
  assume "andThen m f s = (Returned r, s')"
  then obtain x s1 where m: "m s = (Returned x, s1)" and f: "f x s1 = (Returned r, s')"
    by (auto dest: andThen_ReturnedD)
  from settlesD[OF assms(1) m] obtain ops pre post where
    a: "store s1 = store s" "current s = Some ops" "current s1 = Some (ops @ pre @ op # post)"
       "list_all (\<lambda>op'. opKey op' \<noteq> opKey op) post"
    by blast
  from stagesD[OF assms(2) f] obtain n2 where
    b: "store s' = store s1" "current s' = map_option (\<lambda>ops. ops @ n2) (current s1)"
       "list_all (\<lambda>op'. opKey op' \<noteq> opKey op) n2"
    by blast
  show "store s' = store s \<and>
        (\<exists>ops pre post. current s = Some ops \<and> current s' = Some (ops @ pre @ op # post)
              \<and> list_all (\<lambda>op'. opKey op' \<noteq> opKey op) post)"
    using a b by (intro conjI exI[of _ ops] exI[of _ pre] exI[of _ "post @ n2"]) auto
qed

text \<open>A settled operation decides the key once the batch is written.\<close>

lemma settles_commit:
  assumes "settles op m" and "m (start s) = (Returned x, s1)" and "commit s1 = (Returned u, s')"
  shows "map_of (store s') (opKey op) = (case op of Put _ v \<Rightarrow> Some v | Del _ \<Rightarrow> None)"
proof -
  from settlesD[OF assms(1,2)] obtain ops pre post where
    b: "current s1 = Some (ops @ pre @ op # post)"
       "list_all (\<lambda>op'. opKey op' \<noteq> opKey op) post"
    by blast
  have "map_of (writeBatch ((ops @ pre) @ op # post) (store s1)) (opKey op)
          = (case op of Put _ v \<Rightarrow> Some v | Del _ \<Rightarrow> None)"
    using b(2) by (rule map_of_writeBatch_settled)
  with commit_ReturnedD[OF assms(3)] b(1) show ?thesis by simp
qed


lemma u_confirm_prefix:
  "stages (\<lambda>_. True)
     (if \<not> tx_isCoinbase t then
        andThen (liftOutcome (getSpentCredits t)) (\<lambda>credits.
          confirm_inputs e t 0 (inputs t) credits (new_Details t))
      else ret (new_Details t))"
  by (intro stages_if stages_andThen stages_liftOutcome stages_confirm_inputs stages_ret)

lemma u_confirm_settles_tx: "settles (Put (Kt (txid t)) (VTX (toExtended t))) (u_confirm e t)"
  unfolding u_confirm_def
  apply (rule settles_after[where Q="\<lambda>_. True"])
   apply (rule u_confirm_prefix)
  apply (rule settles_after[where Q="\<lambda>_. True"])
   apply (rule stages_confirm_outputs)
  apply (rule settles_after[where Q="\<lambda>_. True"])
   apply (rule stages_del, rule TrueI)
  apply (rule settles_before)
   apply (rule settles_put)
  apply (intro stages_andThen stages_if stages_del stages_put stages_confirm_accounts
              stages_addBlock stages_ret stages_commitState stages_unlockTX stages_emit
              stages_emitBalance)
       apply auto
  done

lemma u_confirm_settles_pending: "settles (Del (Kp (txid t))) (u_confirm e t)"
  unfolding u_confirm_def
  apply (rule settles_after[where Q="\<lambda>_. True"])
   apply (rule u_confirm_prefix)
  apply (rule settles_after[where Q="\<lambda>_. True"])
   apply (rule stages_confirm_outputs)
  apply (rule settles_after[where Q="\<lambda>_. True"])
   apply (rule stages_del, rule TrueI)
  apply (rule settles_after[where Q="\<lambda>_. True"])
   apply (rule stages_put, rule TrueI)
  apply (rule settles_before)
   apply (rule settles_del)
  apply (intro stages_andThen stages_if stages_del stages_put stages_confirm_accounts
              stages_addBlock stages_ret stages_commitState stages_unlockTX stages_emit
              stages_emitBalance)
       apply auto
  done

lemma u_confirm_settles_height: "settles (Put (Kh (height t) (txid t)) DUMMY) (u_confirm e t)"
  unfolding u_confirm_def
  apply (rule settles_after[where Q="\<lambda>_. True"])
   apply (rule u_confirm_prefix)
  apply (rule settles_after[where Q="\<lambda>_. True"])
   apply (rule stages_confirm_outputs)
  apply (rule settles_after[where Q="\<lambda>_. True"])
   apply (rule stages_del, rule TrueI)
  apply (rule settles_after[where Q="\<lambda>_. True"])
   apply (rule stages_put, rule TrueI)
  apply (rule settles_after[where Q="\<lambda>_. True"])
   apply (rule stages_del, rule TrueI)
  apply (rule settles_before)
   apply (rule settles_put)
  apply (intro stages_andThen stages_if stages_del stages_put stages_confirm_accounts
              stages_addBlock stages_ret stages_commitState stages_unlockTX stages_emit
              stages_emitBalance)
       apply auto
  done

subsection \<open>Evaluating the small wallet\<close>

lemmas run_defs =
  after_def addAll_def add_def u_add_def mkTX_def spend_def pay_def
  ex_fresh_def ex_env_def getTX_def get_def start_def Let_def isRBF_def removeConflicts_def
  markerOf_def getSpent_def has_def andThen_def del_def put_def insert_tx_def
  getCredit_def writeInput_def inputAt_def ret_def throw_def Outpoint_fromTX_def getPath_def
  resolveInput_def modPending_def clone_def new_TXDBState_def saveCredit_def Credit_fromTX_def
  Coin_fromTX_def Credit_toRaw_def Coin_toRaw_def lru_push_def lru_start_def new_Details_def
  setMember_def binaryInsert_def toExtended_def addBlock_def getBlock_def new_BlockRecord_def
  BlockRecord_add_def commitState_def TXDBState_toRaw_def unlockTX_def emit_def emitBalance_def
  toBalance_def commit_def writeBatch_def lru_commit_def NULL_HASH_def

section \<open>Mutable transactions are refused\<close>

text \<open>
  Claim C10. \<^verbatim>\<open>add\<close> of a transaction whose \<^verbatim>\<open>mutable\<close> flag is set throws the assertion
  error \<^verbatim>\<open>Cannot add mutable TX to wallet.\<close>; the batch is dropped, so the store, the
  committed state and the published coin cache are as before and the event buffer is
  empty. Called on an idle TXDB, the whole object is exactly as before.
\<close>

theorem add_mutable_throws:
  assumes "mutable t"
  shows "\<exists>s'. add n e t s = Some (Threw (AssertionError ''Cannot add mutable TX to wallet.''), s')
           \<and> store s' = store s \<and> state s' = state s
           \<and> lru_items (coinCache s') = lru_items (coinCache s)
           \<and> events s' = [] \<and> (idle s \<longrightarrow> s' = s)"
  using assms by (rule add_mutable)

theorem add_mutable_throws_witness:
  "mutable ex_fund_mutable \<and> idle ex_fresh
   \<and> add 0 ex_env ex_fund_mutable ex_fresh
       = Some (Threw (AssertionError ''Cannot add mutable TX to wallet.''), ex_fresh)"
proof -
  have m: "mutable ex_fund_mutable" by (simp add: ex_fund_mutable_def)
  have i: "idle ex_fresh" by (simp add: idle_def ex_fresh_def)
  from add_mutable_throws [OF m, of 0 ex_env ex_fresh] m i show ?thesis by auto
qed

section \<open>confirm on a missing or confirmed transaction\<close>

text \<open>
  Claim C9, as amended. For a hash with no transaction stored under \<^verbatim>\<open>t[hash]\<close>,
  \<^verbatim>\<open>confirm\<close> returns nothing and the TXDB is exactly as before (no batch was opened).
  For a stored transaction with height other than -1 it throws
  \<^verbatim>\<open>TX is already confirmed.\<close> and the TXDB is as before. A plain \<^verbatim>\<open>Error\<close> is thrown in
  that case only; every other failure of \<^verbatim>\<open>confirm\<close> is an assertion or type error.
\<close>

theorem confirm_missing_or_confirmed:
  "(getTX h s = None \<longrightarrow> confirm e h blk s = (Returned None, s))
   \<and> (\<forall>t. getTX h s = Some t \<and> height t \<noteq> -1 \<longrightarrow>
          confirm e h blk s = (Threw (Error ''TX is already confirmed.''), s))
   \<and> ((\<exists>msg s'. confirm e h blk s = (Threw (Error msg), s')) \<longleftrightarrow>
        (\<exists>t. getTX h s = Some t \<and> height t \<noteq> -1))"
proof (intro conjI)
  show "getTX h s = None \<longrightarrow> confirm e h blk s = (Returned None, s)"
    by (simp add: confirm_def)
  show c2: "\<forall>t. getTX h s = Some t \<and> height t \<noteq> -1 \<longrightarrow>
          confirm e h blk s = (Threw (Error ''TX is already confirmed.''), s)"
    by (simp add: confirm_def)
  show "(\<exists>msg s'. confirm e h blk s = (Threw (Error msg), s')) \<longleftrightarrow>
        (\<exists>t. getTX h s = Some t \<and> height t \<noteq> -1)"
  proof
    assume "\<exists>msg s'. confirm e h blk s = (Threw (Error msg), s')"
    then obtain msg s' where th: "confirm e h blk s = (Threw (Error msg), s')" by blast
    show "\<exists>t. getTX h s = Some t \<and> height t \<noteq> -1"
    proof (cases "getTX h s")
      case None
      with th show ?thesis by (simp add: confirm_def)
    next
      case (Some t)
      show ?thesis
      proof (cases "height t = -1")
        case False
        with Some show ?thesis by simp
      next
        case True
        show ?thesis
        proof (cases blk)
          case None
          with th Some True show ?thesis by (simp add: confirm_def)
        next
          case (Some b)
          let ?t' = "t\<lparr>height := bm_height b, block := bm_block b, ts := bm_ts b\<rparr>"
          obtain r s1 where run: "u_confirm e ?t' (start s) = (r, s1)"
            by (cases "u_confirm e ?t' (start s)")
          have noE: "r \<noteq> Threw (Error msg)" for msg
            using ao_u_confirm[of e ?t'] run by (auto simp: assertsOnly_def)
          have "assertsOnly (andThen commit (\<lambda>_. ret x))" for x :: "details option"
            by (intro ao_andThen ao_commit ao_ret)
          then have noC: "andThen commit (\<lambda>_. ret x) s1 \<noteq> (Threw (Error msg), s'')"
            for x :: "details option" and msg s''
            by (simp add: assertsOnly_def)
          from th \<open>getTX h s = Some t\<close> True Some run noE noC show ?thesis
            by (cases r) (auto simp add: confirm_def split: error.splits)
        qed
      qed
    qed
  next
    assume "\<exists>t. getTX h s = Some t \<and> height t \<noteq> -1"
    with c2 show "\<exists>msg s'. confirm e h blk s = (Threw (Error msg), s')" by blast
  qed
qed

theorem confirm_missing_or_confirmed_witness:
  "getTX ''absent'' ex_fresh = None
   \<and> confirm ex_env ''absent'' (Some ex_block) ex_fresh = (Returned None, ex_fresh)
   \<and> map_option height (getTX ''fund'' (after [ex_fund_mined])) = Some 100
   \<and> confirm ex_env ''fund'' (Some ex_block) (after [ex_fund_mined])
       = (Threw (Error ''TX is already confirmed.''), after [ex_fund_mined])"
proof -
  have a: "getTX ''absent'' ex_fresh = None"
    by (simp add: getTX_def get_def ex_fresh_def)
  have b: "map_option height (getTX ''fund'' (after [ex_fund_mined])) = Some 100"
    by code_simp
  then obtain t where t: "getTX ''fund'' (after [ex_fund_mined]) = Some t" "height t \<noteq> -1"
    by (cases "getTX ''fund'' (after [ex_fund_mined])") auto
  from confirm_missing_or_confirmed [of "''absent''" ex_fresh ex_env "Some ex_block"]
       confirm_missing_or_confirmed [of "''fund''" "after [ex_fund_mined]" ex_env "Some ex_block"]
       a b t
  show ?thesis by auto
qed

text \<open>
  The claim as stated says that \<^verbatim>\<open>confirm\<close> throws only for a stored transaction that is
  already confirmed. A pending transaction that spends a pending credit of the wallet
  fails the assertion \<^verbatim>\<open>coin.height !== -1\<close> of \<^verbatim>\<open>_confirm\<close>.
\<close>

theorem confirm_throws_for_pending_counterexample:
  "map_option height (getTX ''first'' (after [ex_fund, ex_first])) = Some (-1)
   \<and> fst (confirm ex_env ''first'' (Some ex_block) (after [ex_fund, ex_first]))
       = Threw (AssertionError ''coin.height !== -1'')"
  by code_simp

section \<open>abandon\<close>










section \<open>The spent marker names the spender\<close>

text \<open>
  Claim C7. With a batch open, \<^verbatim>\<open>spendCredit\<close> and \<^verbatim>\<open>writeInput\<close> stage under
  \<^verbatim>\<open>s[prevout.hash, prevout.index]\<close> the outpoint made of the hash of the spending
  transaction and the index of the consuming input (and \<^verbatim>\<open>spendCredit\<close> the undo coin under
  \<^verbatim>\<open>d\<close> of that same spender outpoint); once the batch is written, \<^verbatim>\<open>getSpent\<close> of the
  prevout is that spender outpoint.
\<close>

theorem spent_marker_names_spender:
  assumes "i < length (inputs t)" and "current s = Some ops"
  shows "spendCredit cr t i s =
           (Returned (),
            s\<lparr>current := Some (ops @
                 [Put (Ks (op_hash (prevout (inputs t ! i))) (op_index (prevout (inputs t ! i))))
                      (VOutpoint (Outpoint (txid t) i)),
                  Put (Kd (txid t) i) (VCoin (Coin_toRaw (coin cr)))])\<rparr>)
         \<and> writeInput t i s =
           (Returned (),
            s\<lparr>current := Some (ops @
                 [Put (Ks (op_hash (prevout (inputs t ! i))) (op_index (prevout (inputs t ! i))))
                      (VOutpoint (Outpoint (txid t) i))])\<rparr>)
         \<and> (\<forall>s1 s2. (spendCredit cr t i s = (Returned (), s1) \<or> writeInput t i s = (Returned (), s1))
               \<and> commit s1 = (Returned (), s2) \<longrightarrow>
               getSpent (op_hash (prevout (inputs t ! i))) (op_index (prevout (inputs t ! i))) s2
                 = Some (Outpoint (txid t) i))"
proof -
  let ?k = "Ks (op_hash (prevout (inputs t ! i))) (op_index (prevout (inputs t ! i)))"
  let ?v = "VOutpoint (Outpoint (txid t) i)"
  have sc: "spendCredit cr t i s =
           (Returned (), s\<lparr>current := Some (ops @ [Put ?k ?v, Put (Kd (txid t) i) (VCoin (Coin_toRaw (coin cr)))])\<rparr>)"
    using assms
    by (simp add: spendCredit_def inputAt_def Let_def Outpoint_fromTX_def put_def andThen_def ret_def)
  have wi: "writeInput t i s = (Returned (), s\<lparr>current := Some (ops @ [Put ?k ?v])\<rparr>)"
    using assms
    by (simp add: writeInput_def inputAt_def Let_def Outpoint_fromTX_def put_def andThen_def ret_def)
  have m1: "map_of (writeBatch (ops @ [Put ?k ?v, Put (Kd (txid t) i) x]) kv) ?k = Some ?v" for x kv
    by (simp add: writeBatch_def update_conv')
  have m2: "map_of (writeBatch (ops @ [Put ?k ?v]) kv) ?k = Some ?v" for kv
    by (simp add: writeBatch_def update_conv')
  show ?thesis
    using sc wi m1 m2
    by (auto simp add: getSpent_def get_def dest!: commit_ReturnedD)
qed

theorem spent_marker_names_spender_witness:
  "(0::nat) < length (inputs ex_first) \<and> current (start ex_fresh) = Some []
   \<and> writeInput ex_first 0 (start ex_fresh)
       = (Returned (),
          (start ex_fresh)\<lparr>current := Some [Put (Ks ''fund'' 0) (VOutpoint (Outpoint ''first'' 0))]\<rparr>)"
proof -
  have a: "(0::nat) < length (inputs ex_first)" by (simp add: ex_first_def mkTX_def)
  have b: "current (start ex_fresh) = Some []" by simp
  have c: "prevout (inputs ex_first ! 0) = Outpoint ''fund'' 0" "txid ex_first = ''first''"
    by (simp_all add: ex_first_def mkTX_def spend_def)
  from spent_marker_names_spender [OF a b] a b c show ?thesis by simp
qed

section \<open>Replace-by-fee transactions are marked and ignored\<close>

lemma isRBF_inputs_iff:
  "isRBF_inputs ins s \<longleftrightarrow> (\<exists>inp \<in> set ins. has (Kr (op_hash (prevout inp))) s)"
  by (induction ins) auto

lemma isRBF_iff:
  "isRBF t s \<longleftrightarrow> tx_isRBF t \<or> (\<exists>inp \<in> set (inputs t). has (Kr (op_hash (prevout inp))) s)"
  by (simp add: isRBF_def isRBF_inputs_iff)

text \<open>
  Claim C4, as amended. For a transaction that is not mutable, not yet indexed, of height
  -1, and that signals replace-by-fee or spends an output of a transaction tagged under
  \<^verbatim>\<open>r\<close>, \<^verbatim>\<open>add\<close> returns nothing and writes the marker \<^verbatim>\<open>r[hash]\<close> and nothing else: the
  store is the old store with that one key set, and the committed state (transaction
  count, coin count, balances) is unchanged.
\<close>

theorem add_rbf_only_marks:
  assumes "\<not> mutable t" and "getTX (txid t) s = None" and "height t = -1"
    and "tx_isRBF t \<or> (\<exists>inp \<in> set (inputs t). has (Kr (op_hash (prevout inp))) s)"
  shows "\<exists>s'. add n e t s = Some (Returned None, s')
           \<and> store s' = AList.update (Kr (txid t)) DUMMY (store s)
           \<and> state s' = state s
           \<and> (idle s \<longrightarrow> s' = s\<lparr>store := AList.update (Kr (txid t)) DUMMY (store s)\<rparr>)"
proof -
  have rbf: "isRBF t (start s)" using assms(4) by (simp add: isRBF_iff)
  have u: "u_add n e t (start s) =
             Some (Returned None, (start s)\<lparr>current := Some [Put (Kr (txid t)) DUMMY]\<rparr>)"
    using assms(1-3) rbf
    by (simp add: u_add_def Let_def put_def andThen_def ret_def)
  show ?thesis
    unfolding add_def u
    by (simp add: andThen_def commit_def Let_def writeBatch_def start_def clone_def ret_def
                  lru_commit_def lru_start_def idle_def)
qed

theorem add_rbf_only_marks_witness:
  "\<not> mutable ex_rbf \<and> getTX (txid ex_rbf) ex_fresh = None \<and> height ex_rbf = -1 \<and> tx_isRBF ex_rbf
   \<and> idle ex_fresh
   \<and> add 0 ex_env ex_rbf ex_fresh = Some (Returned None, ex_fresh\<lparr>store := [(Kr ''rbf'', DUMMY)]\<rparr>)"
proof -
  have a: "\<not> mutable ex_rbf" "height ex_rbf = -1" "tx_isRBF ex_rbf" "txid ex_rbf = ''rbf''"
    by (simp_all add: ex_rbf_def mkTX_def)
  have b: "getTX (txid ex_rbf) ex_fresh = None" by (simp add: getTX_def get_def ex_fresh_def)
  have i: "idle ex_fresh" by (simp add: idle_def ex_fresh_def)
  have st: "store ex_fresh = []" by (simp add: ex_fresh_def)
  from add_rbf_only_marks [OF a(1) b a(2), of 0 ex_env] a b i st show ?thesis by auto
qed

text \<open>The claim as stated covers every such transaction; a mutable one is refused before
  the marker is written.\<close>

theorem add_rbf_mutable_counterexample:
  "getTX (txid ex_rbf_mutable) ex_fresh = None \<and> height ex_rbf_mutable = -1
   \<and> isRBF ex_rbf_mutable ex_fresh
   \<and> add 0 ex_env ex_rbf_mutable ex_fresh
        = Some (Threw (AssertionError ''Cannot add mutable TX to wallet.''), ex_fresh)
   \<and> \<not> has (Kr (txid ex_rbf_mutable)) ex_fresh"
proof -
  have m: "mutable ex_rbf_mutable" by (simp add: ex_rbf_mutable_def)
  have i: "idle ex_fresh" by (simp add: idle_def ex_fresh_def)
  have a: "getTX (txid ex_rbf_mutable) ex_fresh = None" "\<not> has (Kr (txid ex_rbf_mutable)) ex_fresh"
    by (simp_all add: getTX_def get_def has_def ex_fresh_def)
  have b: "height ex_rbf_mutable = -1" "isRBF ex_rbf_mutable ex_fresh"
    by (simp_all add: ex_rbf_mutable_def ex_rbf_def mkTX_def isRBF_def)
  from add_mutable [OF m, of 0 ex_env ex_fresh] i a b show ?thesis by auto
qed

section \<open>add of a transaction that is already indexed\<close>

text \<open>
  Claim C3, as amended. Let a transaction be stored under the hash of the incoming one.
  If the stored copy has a height other than -1, or the incoming transaction has height
  -1, \<^verbatim>\<open>add\<close> changes nothing. Otherwise, for an incoming transaction that is not mutable,
  \<^verbatim>\<open>add\<close> copies height, block, ts and index of the incoming transaction onto the stored
  copy and runs the confirm transition on it; when that returns, the stored transaction
  carries the block fields, the pending flag is gone and the height key exists.
\<close>

theorem add_existing:
  assumes "getTX (txid t) s = Some ex"
  shows "(height ex \<noteq> -1 \<or> height t = -1 \<longrightarrow>
            (\<exists>r s'. add n e t s = Some (r, s') \<and> store s' = store s \<and> state s' = state s
                     \<and> (idle s \<longrightarrow> s' = s)))
         \<and> (height ex = -1 \<and> height t \<noteq> -1 \<and> \<not> mutable t \<longrightarrow>
              add n e t s =
                Some (confirmTransition e
                        (ex\<lparr>height := height t, block := block t, ts := ts t, index := index t\<rparr>) s)
              \<and> (\<forall>r s'. add n e t s = Some (Returned r, s') \<longrightarrow>
                    getTX (txid ex) s' =
                      Some (toExtended (ex\<lparr>height := height t, block := block t, ts := ts t,
                                            index := index t\<rparr>))
                    \<and> \<not> has (Kp (txid ex)) s' \<and> has (Kh (height t) (txid ex)) s'))"
proof (intro conjI impI)
  assume h: "height ex \<noteq> -1 \<or> height t = -1"
  show "\<exists>r s'. add n e t s = Some (r, s') \<and> store s' = store s \<and> state s' = state s
                     \<and> (idle s \<longrightarrow> s' = s)"
  proof (cases "mutable t")
    case True
    from add_mutable[OF True, of n e s] show ?thesis by blast
  next
    case False
    with assms h have u: "u_add n e t (start s) = Some (Returned None, start s)"
      by (auto simp add: u_add_def Let_def)
    from empty_batch_commit[of None s] show ?thesis
      unfolding add_def u by auto
  qed
next
  assume h: "height ex = -1 \<and> height t \<noteq> -1 \<and> \<not> mutable t"
  let ?ex = "ex\<lparr>height := height t, block := block t, ts := ts t, index := index t\<rparr>"
  from assms h have u: "u_add n e t (start s) = Some (andThen (u_confirm e ?ex) (\<lambda>d. ret (Some d)) (start s))"
    by (simp add: u_add_def Let_def)
  show eq: "add n e t s = Some (confirmTransition e ?ex s)"
    unfolding add_def u confirmTransition_def
    by (cases "u_confirm e ?ex (start s)")
       (auto simp add: andThen_def ret_def split: outcome.splits prod.splits)
  show "\<forall>r s'. add n e t s = Some (Returned r, s') \<longrightarrow>
          getTX (txid ex) s' = Some (toExtended ?ex)
          \<and> \<not> has (Kp (txid ex)) s' \<and> has (Kh (height t) (txid ex)) s'"
  proof (intro allI impI)
    fix r s'
    assume "add n e t s = Some (Returned r, s')"
    with eq have ct: "confirmTransition e ?ex s = (Returned r, s')" by simp
    then obtain d s1 where uc: "u_confirm e ?ex (start s) = (Returned d, s1)"
      and co: "andThen commit (\<lambda>_. ret (Some d)) s1 = (Returned r, s')"
      by (auto simp: confirmTransition_def split: prod.splits outcome.splits)
    from co obtain u where co': "commit s1 = (Returned u, s')"
      by (auto dest!: andThen_ReturnedD simp: ret_def)
    from settles_commit[OF u_confirm_settles_tx uc co']
         settles_commit[OF u_confirm_settles_pending uc co']
         settles_commit[OF u_confirm_settles_height uc co']
    show "getTX (txid ex) s' = Some (toExtended ?ex)
          \<and> \<not> has (Kp (txid ex)) s' \<and> has (Kh (height t) (txid ex)) s'"
      by (simp add: getTX_def get_def has_def)
  qed
qed

theorem add_existing_witness:
  "getTX (txid ex_fund_mined) (after [ex_fund]) = Some ex_fund
   \<and> height ex_fund = -1 \<and> height ex_fund_mined \<noteq> -1 \<and> \<not> mutable ex_fund_mined
   \<and> add 0 ex_env ex_fund_mined (after [ex_fund])
        = Some (confirmTransition ex_env ex_fund_mined (after [ex_fund]))
   \<and> (\<exists>r s'. add 0 ex_env ex_fund (after [ex_fund]) = Some (r, s')
          \<and> store s' = store (after [ex_fund]))"
proof -
  have g: "getTX (txid ex_fund_mined) (after [ex_fund]) = Some ex_fund" by code_simp
  have g': "getTX (txid ex_fund) (after [ex_fund]) = Some ex_fund" by code_simp
  have h: "height ex_fund = -1" "height ex_fund_mined \<noteq> -1" "\<not> mutable ex_fund_mined"
    by (simp_all add: ex_fund_def ex_fund_mined_def mkTX_def)
  have c: "ex_fund\<lparr>height := height ex_fund_mined, block := block ex_fund_mined,
                    ts := ts ex_fund_mined, index := index ex_fund_mined\<rparr> = ex_fund_mined"
    by (simp add: ex_fund_mined_def)
  from add_existing [OF g, of 0 ex_env] add_existing [OF g', of 0 ex_env] g h c
  show ?thesis by auto
qed

text \<open>The claim as stated promotes every incoming confirmed transaction; a mutable one is
  refused and the stored copy stays pending.\<close>

theorem add_existing_mutable_counterexample:
  "map_option height (getTX (txid ex_fund_mutable) (after [ex_fund])) = Some (-1)
   \<and> height ex_fund_mutable = 100
   \<and> map_option fst (add 0 ex_env ex_fund_mutable (after [ex_fund]))
        = Some (Threw (AssertionError ''Cannot add mutable TX to wallet.''))
   \<and> map_option (\<lambda>r. map_option height (getTX ''fund'' (snd r)))
         (add 0 ex_env ex_fund_mutable (after [ex_fund])) = Some (Some (-1))"
  by code_simp

section \<open>removeConflicts and confirmed spenders\<close>

lemma gatherSpends_conflict:
  assumes "\<forall>inp \<in> set ins. \<forall>sp. markerOf inp s = Some sp \<and> op_hash sp \<noteq> txid t
              \<longrightarrow> getTX (op_hash sp) s \<noteq> None"
    and "\<exists>inp \<in> set ins. \<exists>sp spender. markerOf inp s = Some sp \<and> op_hash sp \<noteq> txid t
              \<and> getTX (op_hash sp) s = Some spender \<and> height spender \<noteq> -1"
  shows "gatherSpends t True ins spends s = Returned None"
  using assms
proof (induction ins arbitrary: spends)
  case Nil
  then show ?case by simp
next
  case (Cons inp rest)
  show ?case
  proof (cases "markerOf inp s")
    case None
    with Cons.prems have "\<exists>inp \<in> set rest. \<exists>sp spender. markerOf inp s = Some sp \<and> op_hash sp \<noteq> txid t
              \<and> getTX (op_hash sp) s = Some spender \<and> height spender \<noteq> -1"
      by auto
    with Cons.IH[of "spends @ [None]"] Cons.prems(1) None show ?thesis
      by (simp add: markerOf_def)
  next
    case (Some sp)
    show ?thesis
    proof (cases "op_hash sp = txid t")
      case True
      with Cons.prems Some have "\<exists>inp \<in> set rest. \<exists>sp spender. markerOf inp s = Some sp \<and> op_hash sp \<noteq> txid t
              \<and> getTX (op_hash sp) s = Some spender \<and> height spender \<noteq> -1"
        by auto
      with Cons.IH[of "spends @ [None]"] Cons.prems(1) Some True show ?thesis
        by (simp add: markerOf_def)
    next
      case False
      with Cons.prems(1) Some obtain spender where sp: "getTX (op_hash sp) s = Some spender"
        by auto
      show ?thesis
      proof (cases "height spender = -1")
        case True
        with Cons.prems Some sp have "\<exists>inp \<in> set rest. \<exists>sp spender. markerOf inp s = Some sp \<and> op_hash sp \<noteq> txid t
              \<and> getTX (op_hash sp) s = Some spender \<and> height spender \<noteq> -1"
          by auto
        with Cons.IH[of "spends @ [Some spender]"] Cons.prems(1) Some False sp True show ?thesis
          by (simp add: markerOf_def)
      next
        case h: False
        with Some False sp show ?thesis by (simp add: markerOf_def)
      qed
    qed
  qed
qed

lemma gatherSpends_own:
  assumes "\<forall>inp \<in> set ins. \<forall>sp. markerOf inp s = Some sp \<longrightarrow> op_hash sp = txid t"
  shows "gatherSpends t conf ins spends s = Returned (Some (spends @ replicate (length ins) None))"
  using assms
proof (induction ins arbitrary: spends)
  case Nil
  then show ?case by simp
next
  case (Cons inp rest)
  then have "gatherSpends t conf rest (spends @ [None]) s
               = Returned (Some ((spends @ [None]) @ replicate (length rest) None))"
    by simp
  with Cons.prems show ?case
    by (cases "markerOf inp s") (auto simp add: markerOf_def replicate_app_Cons_same)
qed

lemma removeSpends_none: "removeSpends n e (replicate k None) s = Some (Returned (), s)"
  by (induction k) auto

text \<open>
  Claim C5, as amended. For a transaction that is not a coinbase, in a store where every
  spent marker on its inputs that names another transaction names a stored one:
  \<^verbatim>\<open>removeConflicts(tx, true)\<close> returns false when some such spender is confirmed, and the
  TXDB is as before (no spender was removed). Markers that name the transaction itself are
  ignored: when there are no others, the result is true and nothing is removed.
\<close>

theorem removeConflicts_confirmed_spender:
  assumes "\<not> tx_isCoinbase t"
  shows "((\<forall>inp \<in> set (inputs t). \<forall>sp. markerOf inp s = Some sp \<and> op_hash sp \<noteq> txid t
              \<longrightarrow> getTX (op_hash sp) s \<noteq> None)
          \<and> (\<exists>inp \<in> set (inputs t). \<exists>sp spender. markerOf inp s = Some sp \<and> op_hash sp \<noteq> txid t
              \<and> getTX (op_hash sp) s = Some spender \<and> height spender \<noteq> -1)
          \<longrightarrow> removeConflicts n e t True s = Some (Returned False, s))
       \<and> ((\<forall>inp \<in> set (inputs t). \<forall>sp. markerOf inp s = Some sp \<longrightarrow> op_hash sp = txid t)
          \<longrightarrow> removeConflicts n e t conf s = Some (Returned True, s))"
  using assms
  by (auto simp add: removeConflicts_def gatherSpends_conflict gatherSpends_own removeSpends_none)

theorem removeConflicts_confirmed_spender_witness:
  "\<not> tx_isCoinbase ex_rival
   \<and> map_option op_hash (markerOf (spend ''other'' 0) (after [ex_fund_mined])) = Some ''fund''
   \<and> map_option height (getTX ''fund'' (after [ex_fund_mined])) = Some 100
   \<and> removeConflicts 0 ex_env ex_rival True (after [ex_fund_mined])
        = Some (Returned False, after [ex_fund_mined])"
proof -
  let ?S = "after [ex_fund_mined]"
  have a: "\<not> tx_isCoinbase ex_rival" "inputs ex_rival = [spend ''other'' 0]" "txid ex_rival = ''rival''"
    by (simp_all add: ex_rival_def mkTX_def)
  have m: "map_option op_hash (markerOf (spend ''other'' 0) ?S) = Some ''fund''" by code_simp
  have g: "map_option height (getTX ''fund'' ?S) = Some 100" by code_simp
  from m obtain sp where sp: "markerOf (spend ''other'' 0) ?S = Some sp" "op_hash sp = ''fund''"
    by (cases "markerOf (spend ''other'' 0) ?S") auto
  from g obtain t0 where t0: "getTX ''fund'' ?S = Some t0" "height t0 \<noteq> -1"
    by (cases "getTX ''fund'' ?S") auto
  from removeConflicts_confirmed_spender [OF a(1), of ?S 0 ex_env True] a sp t0
  have "removeConflicts 0 ex_env ex_rival True ?S = Some (Returned False, ?S)" by auto
  with a m g show ?thesis by simp
qed

text \<open>The claim as stated covers every transaction; for a coinbase \<^verbatim>\<open>removeConflicts\<close>
  returns true before it reads any marker.\<close>

theorem removeConflicts_coinbase_counterexample:
  "map_option op_hash (markerOf nullInput (after [ex_joint])) = Some ''joint''
   \<and> inputs ex_coinbase = [nullInput] \<and> txid ex_coinbase \<noteq> ''joint''
   \<and> map_option height (getTX ''joint'' (after [ex_joint])) = Some 100
   \<and> map_option fst (removeConflicts 0 ex_env ex_coinbase True (after [ex_joint]))
        = Some (Returned True)"
  by (simp add: run_defs ex_joint_def ex_coinbase_def nullInput_def)

section \<open>The orphan tracker holds 21 orphans before it purges\<close>

lemma replicate_a_fresh:
  "\<not> (\<exists>j. 1 \<le> j \<and> j \<le> k \<and> replicate (Suc k) (CHR ''a'') = replicate j (CHR ''a''))"
proof
  assume "\<exists>j. 1 \<le> j \<and> j \<le> k \<and> replicate (Suc k) (CHR ''a'') = replicate j (CHR ''a'')"
  then obtain j where j: "j \<le> k" "replicate (Suc k) (CHR ''a'') = replicate j (CHR ''a'')"
    by blast
  from j(2) have "length (replicate (Suc k) (CHR ''a'')) = length (replicate j (CHR ''a''))"
    by (rule arg_cong)
  with j(1) show False by simp
qed

lemma verify_orphan_step:
  assumes "holdsOrphans k s"
  shows "verifyInputs ex_env (ex_orphan (Suc k)) None s
           = (Returned False, stashOrphan (ex_orphan (Suc k)) 0 (spend ''unknown'' (Suc k)) None s)"
proof -
  have "count s (replicate (Suc k) (CHR ''a''))
          = (if \<exists>j. 1 \<le> j \<and> j \<le> k \<and> replicate (Suc k) (CHR ''a'') = replicate j (CHR ''a'')
             then Some 1 else None)"
    using assms unfolding holdsOrphans_def by blast
  then have c: "count s (txid (ex_orphan (Suc k))) = None"
    using replicate_a_fresh[of k] by (simp add: ex_orphan_def mkTX_def del: replicate_Suc)
  have g: "getCredit ''unknown'' (Suc k) s = (Returned None, s)"
    using assms by (simp add: holdsOrphans_def getCredit_def get_def)
  have sp: "getSpent ''unknown'' (Suc k) s = None"
    using assms by (simp add: holdsOrphans_def getSpent_def get_def)
  have i: "inputs (ex_orphan (Suc k)) = [spend ''unknown'' (Suc k)]"
    "\<not> tx_isCoinbase (ex_orphan (Suc k))"
    by (simp_all add: ex_orphan_def mkTX_def)
  show ?thesis
    using c g sp
    by (simp add: verifyInputs_def i spend_def truthy_def getCoin_def
                  andThen_def ret_def hasPath_def ex_env_def)
qed

lemma holdsOrphans_step:
  assumes "holdsOrphans k s" and "k \<le> 20"
  shows "holdsOrphans (Suc k) (snd (verifyInputs ex_env (ex_orphan (Suc k)) None s))"
proof -
  let ?t = "ex_orphan (Suc k)"
  let ?s' = "stashOrphan ?t 0 (spend ''unknown'' (Suc k)) None s"
  have p: "purgeOrphans s = s" using assms by (simp add: purgeOrphans_def holdsOrphans_def)
  have cnt: "count s h = (if \<exists>j. 1 \<le> j \<and> j \<le> k \<and> h = replicate j (CHR ''a'') then Some 1 else None)" for h
    using assms(1) unfolding holdsOrphans_def by blast
  have c: "count s (txid ?t) = None"
    using cnt[of "replicate (Suc k) (CHR ''a'')"] replicate_a_fresh[of k]
    by (simp add: ex_orphan_def mkTX_def del: replicate_Suc)
  have orph: "map_option length (orphans s (''unknown'', j)) = (if 1 \<le> j \<and> j \<le> k then Some 1 else None)" for j
    using assms(1) unfolding holdsOrphans_def by blast
  have o: "orphans s (''unknown'', Suc k) = None"
    using orph[of "Suc k"] by simp
  have s': "?s' = s\<lparr>orphans := (orphans s)((''unknown'', Suc k) \<mapsto> [Orphan ?t 0 None]),
                     count := (count s)(txid ?t \<mapsto> 1),
                     totalOrphans := totalOrphans s + 1\<rparr>"
    by (simp add: stashOrphan_def p Let_def spend_def o c)
  have tid: "txid ?t = replicate (Suc k) (CHR ''a'')" by (simp add: ex_orphan_def mkTX_def)
  have a1: "store ?s' = []" "lru_items (coinCache ?s') = Map.empty" "totalOrphans ?s' = int (Suc k)"
    using assms(1) unfolding s' by (simp_all add: holdsOrphans_def)
  have a2: "count ?s' h = (if \<exists>j. 1 \<le> j \<and> j \<le> Suc k \<and> h = replicate j (CHR ''a'') then Some 1 else None)" for h
  proof (cases "h = replicate (Suc k) (CHR ''a'')")
    case True
    then have "\<exists>j. 1 \<le> j \<and> j \<le> Suc k \<and> h = replicate j (CHR ''a'')"
      by (intro exI[of _ "Suc k"]) simp
    with True show ?thesis unfolding s' tid by simp
  next
    case False
    then have "(\<exists>j. 1 \<le> j \<and> j \<le> Suc k \<and> h = replicate j (CHR ''a''))
                 = (\<exists>j. 1 \<le> j \<and> j \<le> k \<and> h = replicate j (CHR ''a''))"
      by (metis le_Suc_eq)
    with False cnt[of h] show ?thesis unfolding s' tid by simp
  qed
  have a3: "map_option length (orphans ?s' (''unknown'', j)) = (if 1 \<le> j \<and> j \<le> Suc k then Some 1 else None)" for j
    using orph[of j] unfolding s' by (cases "j = Suc k") auto
  show ?thesis
    unfolding verify_orphan_step[OF assms(1)] holdsOrphans_def
    using a1 a2 a3 by simp
qed

lemma holdsOrphans_run:
  "k \<le> 21 \<Longrightarrow> holdsOrphans k (verifyAll (map ex_orphan [1..<Suc k]) ex_fresh)"
proof (induction k)
  case 0
  show ?case by (simp add: verifyAll_def holdsOrphans_def ex_fresh_def)
next
  case (Suc k)
  then have h: "holdsOrphans k (verifyAll (map ex_orphan [1..<Suc k]) ex_fresh)" and le: "k \<le> 20"
    by simp_all
  have "verifyAll (map ex_orphan [1..<Suc (Suc k)]) ex_fresh
          = snd (verifyInputs ex_env (ex_orphan (Suc k)) None
                   (verifyAll (map ex_orphan [1..<Suc k]) ex_fresh))"
    by (simp add: verifyAll_def)
  with holdsOrphans_step[OF h le] show ?case by simp
qed

lemma stashOrphan_total:
  "totalOrphans (stashOrphan t i inp blk s) = (if totalOrphans s > 20 then 1 else totalOrphans s + 1)"
  by (simp add: stashOrphan_def purgeOrphans_def Let_def)

lemma stashOrphan_purges:
  "totalOrphans s > 20 \<Longrightarrow>
     orphans (stashOrphan t i inp blk s)
       = [(op_hash (prevout inp), op_index (prevout inp)) \<mapsto> [Orphan t i blk]]"
  by (simp add: stashOrphan_def purgeOrphans_def Let_def)

text \<open>
  Claim C8. The claim caps the tracker at 20 entries, as the comment in \<^verbatim>\<open>verifyInputs\<close>
  does (\<^verbatim>\<open>Only allow 20 orphans at a time\<close>). The guard is \<^verbatim>\<open>totalOrphans > 20\<close>: after 21
  orphan candidates (one input each) on a wallet without coins, all 21 are held,
  \<^verbatim>\<open>totalOrphans\<close> is 21 and nothing was purged. The 22nd finds the counter above 20:
  the maps are emptied, the counter is reset, and the new orphan is stashed alone.
\<close>

theorem orphans_exceed_twenty:
  "totalOrphans (verifyAll (map ex_orphan [1..<22]) ex_fresh) = 21
   \<and> map_option length (orphans (verifyAll (map ex_orphan [1..<22]) ex_fresh) (''unknown'', 1))
        = Some 1
   \<and> totalOrphans (verifyAll (map ex_orphan [1..<23]) ex_fresh) = 1
   \<and> orphans (verifyAll (map ex_orphan [1..<23]) ex_fresh) (''unknown'', 1) = None"
proof -
  let ?S = "verifyAll (map ex_orphan [1..<22]) ex_fresh"
  have "holdsOrphans 21 (verifyAll (map ex_orphan [1..<Suc 21]) ex_fresh)"
    by (rule holdsOrphans_run) simp
  then have h: "holdsOrphans 21 ?S" by simp
  then have a: "totalOrphans ?S = 21" "map_option length (orphans ?S (''unknown'', 1)) = Some 1"
    by (simp_all add: holdsOrphans_def)
  have e: "(23::nat) = Suc 22" by simp
  have u0: "[1..<Suc 22] = [1..<22] @ [22::nat]" by (rule upt_Suc_append) simp
  have u: "[1..<23] = [1..<22] @ [22::nat]" unfolding e by (rule u0)
  have n: "verifyAll (map ex_orphan [1..<23]) ex_fresh
             = stashOrphan (ex_orphan (Suc 21)) 0 (spend ''unknown'' (Suc 21)) None ?S"
    unfolding u using verify_orphan_step[OF h] by (simp add: verifyAll_def)
  have b: "totalOrphans (verifyAll (map ex_orphan [1..<23]) ex_fresh) = 1"
    unfolding n using a(1) by (simp add: stashOrphan_total)
  have c: "orphans (verifyAll (map ex_orphan [1..<23]) ex_fresh) (''unknown'', 1) = None"
    unfolding n using a(1) by (simp add: stashOrphan_purges spend_def)
  from a b c show ?thesis by simp
qed

section \<open>The balance counters against the stored credits\<close>

text \<open>
  Claim C1. The committed \<^verbatim>\<open>state.unconfirmed\<close> and \<^verbatim>\<open>state.confirmed\<close> are to equal the
  sums \<^verbatim>\<open>getWalletBalance\<close> computes from the stored credits, after every write. The run
  below adds a transaction that pays the wallet 10 twice, a transaction that spends
  both outputs, and a second transaction that spends both outputs as well.
  \<^verbatim>\<open>removeConflicts\<close> records the first spender once per input and \<^verbatim>\<open>removeConflict\<close> erases
  it twice. Afterwards two transactions are stored and the credits sum to 12 unspent,
  while the committed state counts one transaction and an unconfirmed balance of -3.
\<close>

theorem balance_drifts_after_double_conflict:
  "map_option (\<lambda>s. (st_tx (state s), unconfirmed (state s), confirmed (state s),
                     fst (getWalletBalance s),
                     map_option txid (getTX ''fund'' s), map_option txid (getTX ''second'' s)))
     (addAll [ex_fund, ex_first, ex_second] ex_fresh)
   = Some (1, -3, 0, Returned (12, 0), Some ''fund'', Some ''second'')"
  by code_simp

end
